theory Spec2Isabelle
  imports Complex_Main "HOL-Library.Sublist"
begin

section \<open>Vessel motion and route assignment of the ocean-sentinel dashboard\<close>

text \<open>
  The development embeds \<^verbatim>\<open>updateVesselPositions\<close> of the hook
  \<^verbatim>\<open>useRealTimeData\<close> (src/unnamed/part_003, lines 315-416) together with the
  declarations of \<^verbatim>\<open>Vessel\<close>, \<^verbatim>\<open>RoutePoint\<close>, \<^verbatim>\<open>PlasticHotspot\<close> and
  \<^verbatim>\<open>Mission\<close> (src/src/hooks/useAdvancedSystemMetrics.ts, lines 255-304).

  Conventions of the embedding.
  \<^item> A JavaScript \<^verbatim>\<open>number\<close> is a \<^typ>\<open>real\<close>: rounding of IEEE doubles is not
    modelled. The one place where the source can produce \<^verbatim>\<open>NaN\<close> from finite
    inputs, \<^verbatim>\<open>Math.sqrt\<close> of a negative number inside the distance helper, is
    modelled by \<open>None\<close>, and a comparison with \<^verbatim>\<open>NaN\<close> is false.
  \<^item> \<^verbatim>\<open>Math.random()\<close> is a stream of draws \<open>rnd :: nat \<Rightarrow> real\<close> with an
    explicit position that every call advances.
  \<^item> An optional field is an \<open>option\<close>; a \<^verbatim>\<open>Date\<close> is its time value, an
    \<^typ>\<open>int\<close>. The optional \<^verbatim>\<open>nasaMetadata\<close> of a hotspot is never read by the
    tick and is left out.
  \<^item> Reading a property of \<^verbatim>\<open>undefined\<close> throws a \<^verbatim>\<open>TypeError\<close>; the model
    returns \<open>Inl TypeError\<close> there.
  \<^item> Waypoint objects are created by the planner, one fresh object per entry, and
    a plan array belongs to one vessel; the in-place assignment
    \<^verbatim>\<open>targetPlan.completed = true\<close> is therefore a list update at the index of
    the target, and \<^verbatim>\<open>nextPlan.find(p => p === target)\<close> (object identity) finds
    that index.
  \<^item> The \<^verbatim>\<open>plan\<close> property is an array or absent, so the test
    \<^verbatim>\<open>!Array.isArray(nextPlan)\<close> of line 343 is false; the arrays \<^verbatim>\<open>route\<close> of a
    vessel and \<^verbatim>\<open>vessels\<close> of a mission are present, as their interfaces declare
    (the source reads an absent one as the empty array).
  \<^item> Two places where reals and doubles part are kept out of the statements that
    depend on them: \<open>1 / 0 = 0\<close> in HOL, which the longitude scale meets only at a
    base latitude whose cosine is exactly zero, and the sign of a zero, which decides
    between \<open>\<pi>\<close> and \<open>-\<pi>\<close> in \<^verbatim>\<open>Math.atan2\<close> on the negative x axis.
  \<^item> The calls of \<^verbatim>\<open>console.log\<close> and the unused local \<^verbatim>\<open>dLat\<close> of line 368 are
    left out.
\<close>

subsection \<open>Data model\<close>

datatype vesselType = Drone | Ship | Autonomous

datatype vesselStatus = VActive | VIdle | VMaintenance | VReturning

datatype missionStatus = MPlanning | MActive | MCompleted | MPaused

datatype severity = Low | Medium | High | Critical

record routePoint =
  rp_lat :: real
  rp_lng :: real
  rp_eta :: "int option"
  rp_completed :: "bool option"

text \<open>An entry of the \<^verbatim>\<open>plan\<close> array: \<^verbatim>\<open>{ lat, lng, completed?: boolean }\<close>.\<close>

record waypoint =
  wp_lat :: real
  wp_lng :: real
  wp_completed :: "bool option"

record plasticHotspot =
  h_id :: string
  h_lat :: real
  h_lng :: real
  h_concentration :: real
  h_severity :: severity
  h_area :: real
  h_detectedAt :: int

record mission =
  m_id :: string
  m_name :: string
  m_status :: missionStatus
  m_vessels :: "string list"
  m_targets :: "string list"
  m_startDate :: int
  m_estimatedCompletion :: int
  m_plasticTarget :: real
  m_plasticCollected :: real
  m_efficiency :: real

text \<open>
  \<^verbatim>\<open>Vessel\<close>, with the \<^verbatim>\<open>plan\<close> property that the tick attaches by object
  spread (it is not part of the declared interface, hence optional).
\<close>

record vessel =
  vid :: string
  name :: string
  vtype :: vesselType
  lat :: real
  lng :: real
  status :: vesselStatus
  battery :: real
  plasticCollected :: real
  route :: "routePoint list"
  currentTarget :: "string option"
  speed :: real
  plan :: "waypoint list option"

text \<open>The three pieces of React state that the tick reads or writes.\<close>

record store =
  vessels :: "vessel list"
  plasticHotspots :: "plasticHotspot list"
  missions :: "mission list"

datatype error = TypeError

subsection \<open>Library functions of the platform\<close>

definition toRad :: "real \<Rightarrow> real" where
  "toRad x = (x * pi) / 180"

definition toDeg :: "real \<Rightarrow> real" where
  "toDeg x = (x * 180) / pi"

text \<open>\<^verbatim>\<open>Math.hypot(a, b)\<close>.\<close>

definition hypot :: "real \<Rightarrow> real \<Rightarrow> real" where
  "hypot a b = sqrt (a\<^sup>2 + b\<^sup>2)"

text \<open>
  \<^verbatim>\<open>Math.atan2(y, x)\<close> as ECMAScript defines it, on reals: the angle of the point
  \<open>(x, y)\<close> in \<open>(-\<pi>, \<pi>]\<close>, and \<open>0\<close> at the origin (the value for \<open>+0, +0\<close>).
\<close>

definition atan2 :: "real \<Rightarrow> real \<Rightarrow> real" where
  "atan2 y x =
     (if 0 < x then arctan (y / x)
      else if x < 0 then (if 0 \<le> y then arctan (y / x) + pi else arctan (y / x) - pi)
      else if 0 < y then pi / 2
      else if y < 0 then - (pi / 2)
      else 0)"

text \<open>\<^verbatim>\<open>a || b\<close> on numbers: \<open>b\<close> when \<open>a\<close> is falsy, that is zero.\<close>

definition jsOr :: "real \<Rightarrow> real \<Rightarrow> real" where
  "jsOr a b = (if a = 0 then b else a)"

text \<open>\<^verbatim>\<open>Math.round(x)\<close>: the nearest integer, halves rounded up.\<close>

definition mathRound :: "real \<Rightarrow> real" where
  "mathRound x = of_int \<lfloor>x + 1 / 2\<rfloor>"

text \<open>\<^verbatim>\<open>xs.slice(-n)\<close>: the last \<open>n\<close> elements, all of them when there are fewer.\<close>

definition sliceLast :: "nat \<Rightarrow> 'a list \<Rightarrow> 'a list" where
  "sliceLast n xs = drop (length xs - n) xs"

text \<open>\<^verbatim>\<open>xs.find(P)\<close>, by the index of the element found.\<close>

fun findIndex :: "('a \<Rightarrow> bool) \<Rightarrow> 'a list \<Rightarrow> nat option" where
  "findIndex P [] = None"
| "findIndex P (x # xs) = (if P x then Some 0 else map_option Suc (findIndex P xs))"

subsection \<open>Mission membership (lines 319-324)\<close>

definition activeAssigned :: "mission list \<Rightarrow> string set" where
  "activeAssigned ms =
     foldl (\<lambda>acc m. if m_status m = MActive
                     then foldl (\<lambda>acc' v. insert v acc') acc (m_vessels m)
                     else acc) {} ms"

subsection \<open>Planning (lines 341-353)\<close>

text \<open>\<^verbatim>\<open>!p.completed\<close>: an absent flag is falsy.\<close>

definition incomplete :: "waypoint \<Rightarrow> bool" where
  "incomplete p = (wp_completed p \<noteq> Some True)"

definition nearest :: "real \<Rightarrow> real \<Rightarrow> plasticHotspot list \<Rightarrow> waypoint list" where
  "nearest clat clng hs =
     map (\<lambda>x. \<lparr>wp_lat = h_lat (fst x), wp_lng = h_lng (fst x), wp_completed = Some False\<rparr>)
       (take 3
         (sort_key snd
           (map (\<lambda>h. (h, hypot (h_lat h - clat) (h_lng h - clng))) hs)))"

definition freshPlan :: "real \<Rightarrow> real \<Rightarrow> plasticHotspot list \<Rightarrow> waypoint list" where
  "freshPlan clat clng hs =
     (let n = nearest clat clng hs
      in if length n > 0 then n
         else [\<lparr>wp_lat = clat, wp_lng = clng, wp_completed = Some False\<rparr>])"

text \<open>Line 341: \<^verbatim>\<open>(vessel as any).plan ?? []\<close>.\<close>

definition planOf :: "vessel \<Rightarrow> waypoint list" where
  "planOf v = (case plan v of None \<Rightarrow> [] | Some q \<Rightarrow> q)"

definition nextPlanOf :: "plasticHotspot list \<Rightarrow> vessel \<Rightarrow> waypoint list" where
  "nextPlanOf hs v =
     (let p = planOf v
      in if length (filter incomplete p) = 0 then freshPlan (lat v) (lng v) hs else p)"

text \<open>
  Line 355: \<^verbatim>\<open>nextPlan.find(p => !p.completed) ?? nextPlan[nextPlan.length - 1]\<close>,
  \<^verbatim>\<open>undefined\<close> (here \<open>None\<close>) on an empty array.
\<close>

definition targetIndex :: "waypoint list \<Rightarrow> nat option" where
  "targetIndex p =
     (case findIndex incomplete p of
        Some i \<Rightarrow> Some i
      | None \<Rightarrow> if p = [] then None else Some (length p - 1))"

subsection \<open>Motion (lines 357-399)\<close>

definition metersPerSec :: "vessel \<Rightarrow> real" where
  "metersPerSec v = max 0.1 (speed v * 0.514444)"

definition meters :: "vessel \<Rightarrow> real" where
  "meters v = metersPerSec v * 5"

definition degLatPerMeter :: real where
  "degLatPerMeter = 1 / 111000"

definition degLngPerMeter :: "real \<Rightarrow> real" where
  "degLngPerMeter baseLat = 1 / (111000 * cos (jsOr (toRad baseLat) (1 / 1000000)))"

definition bearing :: "real \<Rightarrow> real \<Rightarrow> real \<Rightarrow> real \<Rightarrow> real" where
  "bearing baseLat baseLng tlat tlng =
     (let dLng = toRad (tlng - baseLng);
          y = sin dLng * cos (toRad tlat);
          x = cos (toRad baseLat) * sin (toRad tlat)
              - sin (toRad baseLat) * cos (toRad tlat) * cos dLng
      in atan2 y x)"

definition stepLat :: "vessel \<Rightarrow> waypoint \<Rightarrow> real" where
  "stepLat v t =
     cos (bearing (lat v) (lng v) (wp_lat t) (wp_lng t)) * meters v * degLatPerMeter"

definition stepLng :: "vessel \<Rightarrow> waypoint \<Rightarrow> real" where
  "stepLng v t =
     sin (bearing (lat v) (lng v) (wp_lat t) (wp_lng t)) * meters v * degLngPerMeter (lat v)"

text \<open>
  The distance helper of lines 384-390 (named \<^verbatim>\<open>dKm\<close> at its call, in meters):
  \<open>None\<close> is \<^verbatim>\<open>NaN\<close>, the square root of a negative \<open>a\<close>.
\<close>

definition haversineA :: "real \<Rightarrow> real \<Rightarrow> real \<Rightarrow> real \<Rightarrow> real" where
  "haversineA lat1 lng1 lat2 lng2 =
     (let dphi = toRad (lat2 - lat1);
          dlmb = toRad (lng2 - lng1)
      in (sin (dphi / 2))\<^sup>2 + cos (toRad lat1) * cos (toRad lat2) * (sin (dlmb / 2))\<^sup>2)"

definition dKm :: "real \<Rightarrow> real \<Rightarrow> real \<Rightarrow> real \<Rightarrow> real option" where
  "dKm lat1 lng1 lat2 lng2 =
     (let a = haversineA lat1 lng1 lat2 lng2
      in if a < 0 then None else Some (2 * 6371000 * arcsin (min 1 (sqrt a))))"

text \<open>\<^verbatim>\<open>dKm < 5000\<close>.\<close>

definition arrived :: "real option \<Rightarrow> bool" where
  "arrived d = (case d of None \<Rightarrow> False | Some x \<Rightarrow> x < 5000)"

text \<open>
  The body of the \<^verbatim>\<open>map\<close> callback for a vessel that moves (lines 337-413);
  \<open>r1\<close> and \<open>r2\<close> are the two draws of \<^verbatim>\<open>Math.random()\<close>, in evaluation order.
\<close>

definition moveVessel :: "plasticHotspot list \<Rightarrow> real \<Rightarrow> real \<Rightarrow> vessel \<Rightarrow> error + vessel" where
  "moveVessel hs r1 r2 v =
     (let nextPlan = nextPlanOf hs v
      in case targetIndex nextPlan of
           None \<Rightarrow> Inl TypeError
         | Some i \<Rightarrow>
             (let target = nextPlan ! i;
                  newLat = lat v + stepLat v target;
                  newLng = lng v + stepLng v target;
                  d = dKm newLat newLng (wp_lat target) (wp_lng target);
                  markedPlan = (if arrived d
                                then nextPlan[i := target\<lparr>wp_completed := Some True\<rparr>]
                                else nextPlan);
                  nextRoute = sliceLast 200
                    (route v @ [\<lparr>rp_lat = newLat, rp_lng = newLng,
                                 rp_eta = None, rp_completed = None\<rparr>])
              in Inr (v\<lparr>lat := newLat,
                        lng := newLng,
                        route := nextRoute,
                        plan := Some markedPlan,
                        plasticCollected :=
                          mathRound ((plasticCollected v + r1 * 5) * 10) / 10,
                        battery := max 0 (battery v - r2 * 0.1)\<rparr>)))"

subsection \<open>The tick (lines 315-416)\<close>

text \<open>The guard of line 332: such a vessel is returned as it is.\<close>

definition skipped :: "string set \<Rightarrow> vessel \<Rightarrow> bool" where
  "skipped A v = (status v \<noteq> VActive \<or> vid v \<notin> A)"

text \<open>
  \<^verbatim>\<open>prevVessels.map(...)\<close>, left to right, with the position \<open>k\<close> in the stream of
  random draws; an exception in the callback aborts the whole map.
\<close>

fun mapVessels ::
  "string set \<Rightarrow> plasticHotspot list \<Rightarrow> (nat \<Rightarrow> real) \<Rightarrow> nat \<Rightarrow> vessel list
     \<Rightarrow> error + (vessel list \<times> nat)" where
  "mapVessels A hs rnd k [] = Inr ([], k)"
| "mapVessels A hs rnd k (v # vs) =
     (if skipped A v then
        (case mapVessels A hs rnd k vs of
           Inl e \<Rightarrow> Inl e
         | Inr (vs', k') \<Rightarrow> Inr (v # vs', k'))
      else
        (case moveVessel hs (rnd k) (rnd (k + 1)) v of
           Inl e \<Rightarrow> Inl e
         | Inr v' \<Rightarrow>
             (case mapVessels A hs rnd (k + 2) vs of
                Inl e \<Rightarrow> Inl e
              | Inr (vs', k') \<Rightarrow> Inr (v' # vs', k'))))"

definition updateVesselPositions :: "(nat \<Rightarrow> real) \<Rightarrow> nat \<Rightarrow> store \<Rightarrow> error + (store \<times> nat)" where
  "updateVesselPositions rnd k s =
     (case mapVessels (activeAssigned (missions s)) (plasticHotspots s) rnd k (vessels s) of
        Inl e \<Rightarrow> Inl e
      | Inr (vs', k') \<Rightarrow> Inr (s\<lparr>vessels := vs'\<rparr>, k'))"

text \<open>
  Any number of ticks. Between two ticks other parts of the application may replace
  the hotspot list and the mission list, so every tick comes with its own pair.
\<close>

fun runTicks ::
  "(mission list \<times> plasticHotspot list) list \<Rightarrow> (nat \<Rightarrow> real) \<Rightarrow> nat \<Rightarrow> vessel list
     \<Rightarrow> error + (vessel list \<times> nat)" where
  "runTicks [] rnd k vs = Inr (vs, k)"
| "runTicks (e # es) rnd k vs =
     (case updateVesselPositions rnd k
             \<lparr>vessels = vs, plasticHotspots = snd e, missions = fst e\<rparr> of
        Inl err \<Rightarrow> Inl err
      | Inr (s', k') \<Rightarrow> runTicks es rnd k' (vessels s'))"


subsection \<open>One vessel in one tick, as a relation\<close>

text \<open>
  What \<open>mapVessels\<close> does to one element: a skipped vessel is kept, any other is
  moved with two consecutive draws of the stream.
\<close>

definition stepRel :: "string set \<Rightarrow> plasticHotspot list \<Rightarrow> (nat \<Rightarrow> real) \<Rightarrow> vessel \<Rightarrow> vessel \<Rightarrow> bool" where
  "stepRel A hs rnd v v' =
     (if skipped A v then v' = v
      else (\<exists>n. moveVessel hs (rnd n) (rnd (n + 1)) v = Inr v'))"

subsection \<open>Seed data of the hook (lines 137-297)\<close>

text \<open>
  Two of the initial vessels, two of the initial missions and the initial hotspots,
  as \<^verbatim>\<open>useState\<close> receives them. The dates are computed from the clock at start-up
  and are never read by the tick; they are set to \<open>0\<close> here.
\<close>

definition vessel001 :: vessel where
  "vessel001 =
     \<lparr>vid = ''vessel-001'', name = ''Ocean Guardian Alpha'', vtype = Autonomous,
      lat = 35.2, lng = - 145, status = VActive, battery = 87, plasticCollected = 1250,
      route = [\<lparr>rp_lat = 35.2, rp_lng = - 145, rp_eta = None, rp_completed = None\<rparr>],
      currentTarget = None, speed = 12.5, plan = None\<rparr>"

definition vessel004 :: vessel where
  "vessel004 =
     \<lparr>vid = ''vessel-004'', name = ''Deep Blue Delta'', vtype = Ship,
      lat = 34.6, lng = - 145.8, status = VIdle, battery = 65, plasticCollected = 510,
      route = [\<lparr>rp_lat = 34.6, rp_lng = - 145.8, rp_eta = None, rp_completed = None\<rparr>],
      currentTarget = None, speed = 0, plan = None\<rparr>"

definition mission001 :: mission where
  "mission001 =
     \<lparr>m_id = ''mission-001'', m_name = ''Pacific Garbage Patch Cleanup'', m_status = MActive,
      m_vessels = [''vessel-001'', ''vessel-002'', ''vessel-005''],
      m_targets = [''NASA-CYGNSS-001''], m_startDate = 0, m_estimatedCompletion = 0,
      m_plasticTarget = 5000, m_plasticCollected = 2140, m_efficiency = 87.5\<rparr>"

definition mission002 :: mission where
  "mission002 =
     \<lparr>m_id = ''mission-002'', m_name = ''Coastal Protection Initiative'', m_status = MActive,
      m_vessels = [''vessel-003'', ''vessel-004''],
      m_targets = [''NASA-CYGNSS-003''], m_startDate = 0, m_estimatedCompletion = 0,
      m_plasticTarget = 2000, m_plasticCollected = 890, m_efficiency = 92.1\<rparr>"

definition seedMissions :: "mission list" where
  "seedMissions = [mission001, mission002]"

definition seedHotspots :: "plasticHotspot list" where
  "seedHotspots =
     [\<lparr>h_id = ''NASA-CYGNSS-001'', h_lat = 37.50124578, h_lng = - 144.99876234,
       h_concentration = 15234, h_severity = Critical, h_area = 1200, h_detectedAt = 0\<rparr>,
      \<lparr>h_id = ''NASA-CYGNSS-002'', h_lat = 42.10987654, h_lng = - 28.67543210,
       h_concentration = 12876, h_severity = Critical, h_area = 950, h_detectedAt = 0\<rparr>,
      \<lparr>h_id = ''NASA-CYGNSS-003'', h_lat = - 15.29876543, h_lng = 78.23456789,
       h_concentration = 8934, h_severity = High, h_area = 680, h_detectedAt = 0\<rparr>]"

text \<open>A stream of draws that are all \<open>0\<close>, a value \<^verbatim>\<open>Math.random()\<close> may return.\<close>

definition zeroRnd :: "nat \<Rightarrow> real" where
  "zeroRnd n = 0"

subsection \<open>Relations and inputs used in the statements\<close>

text \<open>
  \<open>planLe p q\<close>: the plan \<open>q\<close> is the plan \<open>p\<close> with some more waypoints
  completed: same length, same coordinates, and no completed flag taken back.
\<close>

definition planLe :: "waypoint list \<Rightarrow> waypoint list \<Rightarrow> bool" where
  "planLe p q \<longleftrightarrow>
     length q = length p \<and>
     (\<forall>j<length p. wp_lat (q ! j) = wp_lat (p ! j) \<and> wp_lng (q ! j) = wp_lng (p ! j) \<and>
        (wp_completed (p ! j) = Some True \<longrightarrow> wp_completed (q ! j) = Some True))"

text \<open>
  \<open>retainedRun es rnd k vs i\<close>: along the run of the ticks \<open>es\<close> from the vessels
  \<open>vs\<close>, no tick replaces the plan of the vessel at index \<open>i\<close>: before every tick
  that vessel is skipped or its plan has an incomplete waypoint.
\<close>

fun retainedRun ::
  "(mission list \<times> plasticHotspot list) list \<Rightarrow> (nat \<Rightarrow> real) \<Rightarrow> nat \<Rightarrow> vessel list
     \<Rightarrow> nat \<Rightarrow> bool" where
  "retainedRun [] rnd k vs i = True"
| "retainedRun (e # es) rnd k vs i =
     ((skipped (activeAssigned (fst e)) (vs ! i) \<or> filter incomplete (planOf (vs ! i)) \<noteq> []) \<and>
      (case updateVesselPositions rnd k
              \<lparr>vessels = vs, plasticHotspots = snd e, missions = fst e\<rparr> of
         Inl err \<Rightarrow> False
       | Inr (s', k') \<Rightarrow> retainedRun es rnd k' (vessels s') i))"

text \<open>
  The first seed vessel with a plan over the three seed hotspots whose first waypoint
  is completed, as it is after arriving there.
\<close>

definition vessel001Underway :: vessel where
  "vessel001Underway =
     vessel001\<lparr>plan := Some
       [\<lparr>wp_lat = 37.50124578, wp_lng = - 144.99876234, wp_completed = Some True\<rparr>,
        \<lparr>wp_lat = 42.10987654, wp_lng = - 28.67543210, wp_completed = Some False\<rparr>,
        \<lparr>wp_lat = - 15.29876543, wp_lng = 78.23456789, wp_completed = Some False\<rparr>]\<rparr>"

text \<open>The fourth seed vessel, of speed 0, with its status set to \<^verbatim>\<open>active\<close>.\<close>

definition vessel004Active :: vessel where
  "vessel004Active = vessel004\<lparr>status := VActive\<rparr>"

text \<open>
  A vessel at latitude 0, longitude 0 whose plan is the single waypoint at latitude 0,
  longitude 1.
\<close>

definition vesselOrigin :: vessel where
  "vesselOrigin =
     vessel001\<lparr>lat := 0, lng := 0,
       route := [\<lparr>rp_lat = 0, rp_lng = 0, rp_eta = None, rp_completed = None\<rparr>],
       plan := Some [\<lparr>wp_lat = 0, wp_lng = 1, wp_completed = Some False\<rparr>]\<rparr>"

section \<open>Basic facts\<close>

lemma findIndex_None: "findIndex P xs = None \<longleftrightarrow> filter P xs = []"
  by (induction xs) auto

lemma findIndex_Some:
  "findIndex P xs = Some i \<Longrightarrow> i < length xs \<and> P (xs ! i) \<and> (\<forall>j<i. \<not> P (xs ! j))"
proof (induction xs arbitrary: i)
  case Nil
  then show ?case by simp
next
  case (Cons x xs)
  show ?case
  proof (cases "P x")
    case True
    with Cons.prems show ?thesis by simp
  next
    case False
    with Cons.prems obtain j where j: "findIndex P xs = Some j" "i = Suc j"
      by auto
    from Cons.IH [OF j(1)] False j(2) show ?thesis
      by (auto simp: nth_Cons split: nat.splits)
  qed
qed

lemma nearest_incomplete: "w \<in> set (nearest clat clng hs) \<Longrightarrow> wp_completed w = Some False"
  by (auto simp: nearest_def)

lemma length_nearest: "length (nearest clat clng hs) = min 3 (length hs)"
  by (simp add: nearest_def)

lemma freshPlan_nonempty: "freshPlan clat clng hs \<noteq> []"
  by (simp add: freshPlan_def Let_def)

lemma freshPlan_incomplete: "w \<in> set (freshPlan clat clng hs) \<Longrightarrow> wp_completed w = Some False"
  by (auto simp: freshPlan_def Let_def nearest_incomplete split: if_splits)

lemma nextPlanOf_has_incomplete: "filter incomplete (nextPlanOf hs v) \<noteq> []"
proof -
  have "filter incomplete (freshPlan clat clng hs) = freshPlan clat clng hs" for clat clng
    by (rule filter_True) (auto simp: incomplete_def dest: freshPlan_incomplete)
  then show ?thesis
    by (auto simp: nextPlanOf_def Let_def freshPlan_nonempty)
qed

lemma targetIndex_nextPlanOf:
  "\<exists>i. targetIndex (nextPlanOf hs v) = Some i \<and> findIndex incomplete (nextPlanOf hs v) = Some i"
proof -
  have "findIndex incomplete (nextPlanOf hs v) \<noteq> None"
    using nextPlanOf_has_incomplete [of hs v] by (simp add: findIndex_None)
  then show ?thesis
    by (auto simp: targetIndex_def)
qed

lemma moveVessel_eq:
  assumes "findIndex incomplete (nextPlanOf hs v) = Some i"
  shows "moveVessel hs r1 r2 v =
    Inr (v\<lparr>lat := lat v + stepLat v (nextPlanOf hs v ! i),
           lng := lng v + stepLng v (nextPlanOf hs v ! i),
           route := sliceLast 200
             (route v @ [\<lparr>rp_lat = lat v + stepLat v (nextPlanOf hs v ! i),
                          rp_lng = lng v + stepLng v (nextPlanOf hs v ! i),
                          rp_eta = None, rp_completed = None\<rparr>]),
           plan := Some
             (if arrived (dKm (lat v + stepLat v (nextPlanOf hs v ! i))
                              (lng v + stepLng v (nextPlanOf hs v ! i))
                              (wp_lat (nextPlanOf hs v ! i)) (wp_lng (nextPlanOf hs v ! i)))
              then (nextPlanOf hs v)[i := (nextPlanOf hs v ! i)\<lparr>wp_completed := Some True\<rparr>]
              else nextPlanOf hs v),
           plasticCollected := mathRound ((plasticCollected v + r1 * 5) * 10) / 10,
           battery := max 0 (battery v - r2 * 0.1)\<rparr>)"
  using assms by (simp add: moveVessel_def targetIndex_def Let_def)

lemma moveVessel_total: "\<exists>v'. moveVessel hs r1 r2 v = Inr v'"
proof -
  obtain i where "findIndex incomplete (nextPlanOf hs v) = Some i"
    using targetIndex_nextPlanOf [of hs v] by blast
  then show ?thesis
    by (simp add: moveVessel_eq)
qed

lemma stepRel_skip: "skipped A v \<Longrightarrow> stepRel A hs rnd v v"
  by (simp add: stepRel_def)

lemma stepRel_move:
  "\<not> skipped A v \<Longrightarrow> moveVessel hs (rnd n) (rnd (n + 1)) v = Inr v' \<Longrightarrow> stepRel A hs rnd v v'"
  by (auto simp: stepRel_def)

lemma mapVessels_rel:
  "\<exists>vs' k'. mapVessels A hs rnd k vs = Inr (vs', k') \<and> list_all2 (stepRel A hs rnd) vs vs'"
proof (induction vs arbitrary: k)
  case Nil
  show ?case by simp
next
  case (Cons v vs)
  show ?case
  proof (cases "skipped A v")
    case True
    from Cons.IH [of k] obtain vs' k' where
      "mapVessels A hs rnd k vs = Inr (vs', k')" "list_all2 (stepRel A hs rnd) vs vs'"
      by blast
    with True show ?thesis
      by (simp add: stepRel_skip)
  next
    case False
    obtain v' where v': "moveVessel hs (rnd k) (rnd (k + 1)) v = Inr v'"
      using moveVessel_total by blast
    from Cons.IH [of "k + 2"] obtain vs' k' where
      "mapVessels A hs rnd (k + 2) vs = Inr (vs', k')" "list_all2 (stepRel A hs rnd) vs vs'"
      by blast
    with False v' show ?thesis
      by (simp add: stepRel_move)
  qed
qed

lemma updateVesselPositions_rel:
  "\<exists>vs' k'. updateVesselPositions rnd k s = Inr (s\<lparr>vessels := vs'\<rparr>, k') \<and>
     list_all2 (stepRel (activeAssigned (missions s)) (plasticHotspots s) rnd) (vessels s) vs'"
  using mapVessels_rel [of "activeAssigned (missions s)" "plasticHotspots s" rnd k "vessels s"]
  by (auto simp: updateVesselPositions_def)

lemma runTicks_rel:
  assumes refl: "\<And>v. R v v"
    and trans: "\<And>u v w. R u v \<Longrightarrow> R v w \<Longrightarrow> R u w"
    and step: "\<And>ms hs v v'. (ms, hs) \<in> set es \<Longrightarrow> stepRel (activeAssigned ms) hs rnd v v' \<Longrightarrow> R v v'"
  shows "\<exists>vs' k'. runTicks es rnd k vs = Inr (vs', k') \<and> list_all2 R vs vs'"
  using step
proof (induction es arbitrary: k vs)
  case Nil
  show ?case by (simp add: list_all2_same refl)
next
  case (Cons e es)
  obtain ms hs where e: "e = (ms, hs)" by (cases e)
  obtain vs1 k1 where
    t: "updateVesselPositions rnd k \<lparr>vessels = vs, plasticHotspots = hs, missions = ms\<rparr>
          = Inr (\<lparr>vessels = vs, plasticHotspots = hs, missions = ms\<rparr>\<lparr>vessels := vs1\<rparr>, k1)"
    and r: "list_all2 (stepRel (activeAssigned ms) hs rnd) vs vs1"
    using updateVesselPositions_rel [of rnd k "\<lparr>vessels = vs, plasticHotspots = hs, missions = ms\<rparr>"]
    by auto
  have r1: "list_all2 R vs vs1"
    using r Cons.prems [of ms hs] e by (auto elim!: list_all2_mono)
  from Cons.IH [of k1 vs1] Cons.prems obtain vs' k' where
    "runTicks es rnd k1 vs1 = Inr (vs', k')" "list_all2 R vs1 vs'"
    by (meson list.set_intros(2))
  with t r1 e show ?case
    using trans by (auto intro: list_all2_trans [where ?P1.0 = R and ?P2.0 = R])
qed

subsection \<open>Membership in the set of assigned vessels\<close>

lemma foldl_insert: "foldl (\<lambda>acc' v. insert v acc') acc xs = acc \<union> set xs"
  by (induction xs arbitrary: acc) auto

lemma activeAssigned_foldl:
  "x \<in> foldl (\<lambda>acc m. if m_status m = MActive
                        then foldl (\<lambda>acc' v. insert v acc') acc (m_vessels m)
                        else acc) acc0 ms
     \<longleftrightarrow> x \<in> acc0 \<or> (\<exists>m\<in>set ms. m_status m = MActive \<and> x \<in> set (m_vessels m))"
  by (induction ms arbitrary: acc0) (auto simp: foldl_insert)

lemma activeAssigned_iff:
  "x \<in> activeAssigned ms \<longleftrightarrow> (\<exists>m\<in>set ms. m_status m = MActive \<and> x \<in> set (m_vessels m))"
  unfolding activeAssigned_def by (simp add: activeAssigned_foldl)

lemma stepRel_skipped: "stepRel A hs rnd v v' \<Longrightarrow> skipped A v \<Longrightarrow> v' = v"
  by (simp add: stepRel_def)

section \<open>Vessels outside the active missions\<close>

text \<open>
  Claim C4. A vessel whose status is not \<^verbatim>\<open>active\<close>, or whose id is listed by no
  mission with status \<^verbatim>\<open>active\<close>, at every tick of a run, is the same record after
  the run as before it: in particular its position, its plan and its trail are
  unchanged. The run itself always returns. The missions and hotspots may differ from
  tick to tick.
\<close>

theorem skipped_vessel_unchanged:
  assumes i: "i < length vs"
    and skip: "\<forall>e\<in>set es. status (vs ! i) \<noteq> VActive \<or>
                 \<not> (\<exists>m\<in>set (fst e). m_status m = MActive \<and> vid (vs ! i) \<in> set (m_vessels m))"
  shows "\<exists>vs' k'. runTicks es rnd k vs = Inr (vs', k') \<and> length vs' = length vs \<and>
           vs' ! i = vs ! i \<and>
           lat (vs' ! i) = lat (vs ! i) \<and> lng (vs' ! i) = lng (vs ! i) \<and>
           plan (vs' ! i) = plan (vs ! i) \<and> route (vs' ! i) = route (vs ! i)"
proof -
  define P where "P v \<longleftrightarrow> (\<forall>e\<in>set es. skipped (activeAssigned (fst e)) v)" for v
  define R where "R v v' \<longleftrightarrow> (P v \<longrightarrow> v' = v)" for v v'
  have step: "R v v'" if "(ms, hs) \<in> set es" "stepRel (activeAssigned ms) hs rnd v v'"
    for ms hs v v'
  proof -
    have "v' = v" if "P v"
    proof -
      from \<open>P v\<close> \<open>(ms, hs) \<in> set es\<close> have "skipped (activeAssigned ms) v"
        unfolding P_def by force
      with \<open>stepRel (activeAssigned ms) hs rnd v v'\<close> show ?thesis
        by (rule stepRel_skipped)
    qed
    then show ?thesis by (simp add: R_def)
  qed
  have "\<exists>vs' k'. runTicks es rnd k vs = Inr (vs', k') \<and> list_all2 R vs vs'"
    by (rule runTicks_rel) (auto simp: R_def intro: step [unfolded R_def, rule_format])
  then obtain vs' k' where run: "runTicks es rnd k vs = Inr (vs', k')"
    and rel: "list_all2 R vs vs'"
    by blast
  have len: "length vs' = length vs"
    using rel by (simp add: list_all2_lengthD)
  have "P (vs ! i)"
    using skip by (auto simp: P_def skipped_def activeAssigned_iff)
  moreover have "R (vs ! i) (vs' ! i)"
    using rel i by (rule list_all2_nthD)
  ultimately have "vs' ! i = vs ! i"
    by (simp add: R_def)
  with run len show ?thesis by simp
qed

theorem skipped_vessel_unchanged_witness:
  "0 < length [vessel004] \<and> status ([vessel004] ! 0) = VIdle \<and>
   (\<exists>vs' k'. runTicks [(seedMissions, seedHotspots), (seedMissions, [])] zeroRnd 0 [vessel004]
        = Inr (vs', k') \<and> length vs' = length [vessel004] \<and>
        vs' ! 0 = [vessel004] ! 0 \<and>
        lat (vs' ! 0) = lat ([vessel004] ! 0) \<and> lng (vs' ! 0) = lng ([vessel004] ! 0) \<and>
        plan (vs' ! 0) = plan ([vessel004] ! 0) \<and> route (vs' ! 0) = route ([vessel004] ! 0))"
proof -
  have h1: "0 < length [vessel004]" by simp
  have h2: "\<forall>e\<in>set [(seedMissions, seedHotspots), (seedMissions, [])].
      status ([vessel004] ! 0) \<noteq> VActive \<or>
      \<not> (\<exists>m\<in>set (fst e). m_status m = MActive \<and> vid ([vessel004] ! 0) \<in> set (m_vessels m))"
    by (simp add: vessel004_def)
  have h3: "status ([vessel004] ! 0) = VIdle"
    by (simp add: vessel004_def)
  from skipped_vessel_unchanged [OF h1 h2, of zeroRnd 0] h1 h3 show ?thesis
    by blast
qed

subsection \<open>The fields of a moved vessel\<close>

lemma moveVessel_route:
  assumes "moveVessel hs r1 r2 v = Inr v'"
  shows "route v' = sliceLast 200
           (route v @ [\<lparr>rp_lat = lat v', rp_lng = lng v', rp_eta = None, rp_completed = None\<rparr>])"
proof -
  obtain i where "findIndex incomplete (nextPlanOf hs v) = Some i"
    using targetIndex_nextPlanOf [of hs v] by blast
  from moveVessel_eq [OF this, of r1 r2] assms show ?thesis
    by auto
qed

lemma moveVessel_accumulators:
  assumes "moveVessel hs r1 r2 v = Inr v'"
  shows "battery v' = max 0 (battery v - r2 * 0.1)"
    and "plasticCollected v' = mathRound ((plasticCollected v + r1 * 5) * 10) / 10"
proof -
  obtain i where "findIndex incomplete (nextPlanOf hs v) = Some i"
    using targetIndex_nextPlanOf [of hs v] by blast
  from moveVessel_eq [OF this, of r1 r2] assms
  show "battery v' = max 0 (battery v - r2 * 0.1)"
    and "plasticCollected v' = mathRound ((plasticCollected v + r1 * 5) * 10) / 10"
    by auto
qed

lemma moveVessel_frame:
  assumes "moveVessel hs r1 r2 v = Inr v'"
  shows "v' = v\<lparr>lat := lat v', lng := lng v', route := route v', plan := plan v',
                 plasticCollected := plasticCollected v', battery := battery v'\<rparr>"
proof -
  obtain i where "findIndex incomplete (nextPlanOf hs v) = Some i"
    using targetIndex_nextPlanOf [of hs v] by blast
  from moveVessel_eq [OF this, of r1 r2] assms show ?thesis
    by auto
qed

lemma stepRel_frame:
  assumes "stepRel A hs rnd v v'"
  shows "v' = v\<lparr>lat := lat v', lng := lng v', route := route v', plan := plan v',
                 plasticCollected := plasticCollected v', battery := battery v'\<rparr>"
proof (cases "skipped A v")
  case True
  with assms have "v' = v" by (rule stepRel_skipped)
  then show ?thesis by simp
next
  case False
  with assms obtain n where "moveVessel hs (rnd n) (rnd (n + 1)) v = Inr v'"
    by (auto simp: stepRel_def)
  then show ?thesis by (rule moveVessel_frame)
qed

lemma length_sliceLast: "length (sliceLast n xs) = min n (length xs)"
  by (auto simp: sliceLast_def)

lemma suffix_sliceLast: "suffix (sliceLast n xs) xs"
  by (simp add: sliceLast_def suffix_drop)

lemma last_sliceLast: "0 < n \<Longrightarrow> xs \<noteq> [] \<Longrightarrow> last (sliceLast n xs) = last xs"
  by (simp add: sliceLast_def)

lemma runTicks_append:
  "runTicks (es1 @ es2) rnd k vs =
     (case runTicks es1 rnd k vs of Inl e \<Rightarrow> Inl e | Inr (vs1, k1) \<Rightarrow> runTicks es2 rnd k1 vs1)"
  by (induction es1 arbitrary: k vs) (auto split: sum.splits)

section \<open>The trail\<close>

text \<open>
  Claim C3. A tick that moves a vessel appends the new position at the end of the
  trail and keeps the last 200 entries of the result: the new trail is a suffix of the
  old one extended by the new position, it ends with that position, and its length is
  the smaller of 200 and the old length plus one. Hence when every trail has at most
  200 entries (the seed trails have one entry), every trail has at most 200 entries
  after any number of ticks.
\<close>

theorem trail_bound:
  "(\<exists>v'. moveVessel hs r1 r2 v = Inr v' \<and>
      route v' = drop (length (route v) + 1 - 200)
        (route v @ [\<lparr>rp_lat = lat v', rp_lng = lng v', rp_eta = None, rp_completed = None\<rparr>]) \<and>
      suffix (route v')
        (route v @ [\<lparr>rp_lat = lat v', rp_lng = lng v', rp_eta = None, rp_completed = None\<rparr>]) \<and>
      last (route v') = \<lparr>rp_lat = lat v', rp_lng = lng v', rp_eta = None, rp_completed = None\<rparr> \<and>
      length (route v') = min 200 (length (route v) + 1)) \<and>
   ((\<forall>u\<in>set vs. length (route u) \<le> 200) \<longrightarrow>
    (\<exists>vs' k'. runTicks es rnd k vs = Inr (vs', k') \<and> length vs' = length vs \<and>
       (\<forall>u\<in>set vs'. length (route u) \<le> 200)))"
proof (intro conjI impI)
  obtain v' where v': "moveVessel hs r1 r2 v = Inr v'"
    using moveVessel_total by blast
  let ?pt = "\<lparr>rp_lat = lat v', rp_lng = lng v', rp_eta = None, rp_completed = None\<rparr>"
  have r: "route v' = sliceLast 200 (route v @ [?pt])"
    using v' by (rule moveVessel_route)
  have "route v' = drop (length (route v) + 1 - 200) (route v @ [?pt])"
    by (simp add: r sliceLast_def)
  moreover have "suffix (route v') (route v @ [?pt])"
    unfolding r by (rule suffix_sliceLast)
  moreover have "last (route v') = ?pt"
    by (simp add: r last_sliceLast)
  moreover have "length (route v') = min 200 (length (route v) + 1)"
    by (simp add: r length_sliceLast)
  ultimately show "\<exists>v'. moveVessel hs r1 r2 v = Inr v' \<and>
      route v' = drop (length (route v) + 1 - 200)
        (route v @ [\<lparr>rp_lat = lat v', rp_lng = lng v', rp_eta = None, rp_completed = None\<rparr>]) \<and>
      suffix (route v')
        (route v @ [\<lparr>rp_lat = lat v', rp_lng = lng v', rp_eta = None, rp_completed = None\<rparr>]) \<and>
      last (route v') = \<lparr>rp_lat = lat v', rp_lng = lng v', rp_eta = None, rp_completed = None\<rparr> \<and>
      length (route v') = min 200 (length (route v) + 1)"
    using v' by blast
next
  assume inv: "\<forall>u\<in>set vs. length (route u) \<le> 200"
  define R where "R u u' \<longleftrightarrow> (length (route u) \<le> 200 \<longrightarrow> length (route u') \<le> 200)"
    for u u' :: vessel
  have step: "R u u'" if "stepRel A hs' rnd u u'" for A hs' u u'
  proof (cases "skipped A u")
    case True
    with that have "u' = u" by (rule stepRel_skipped)
    then show ?thesis by (simp add: R_def)
  next
    case False
    with that obtain n where "moveVessel hs' (rnd n) (rnd (n + 1)) u = Inr u'"
      by (auto simp: stepRel_def)
    then show ?thesis
      by (simp add: R_def moveVessel_route length_sliceLast)
  qed
  have "\<exists>vs' k'. runTicks es rnd k vs = Inr (vs', k') \<and> list_all2 R vs vs'"
    by (rule runTicks_rel) (auto simp: R_def intro: step [unfolded R_def, rule_format])
  then obtain vs' k' where run: "runTicks es rnd k vs = Inr (vs', k')"
    and rel: "list_all2 R vs vs'"
    by blast
  have len: "length vs' = length vs"
    using rel by (simp add: list_all2_lengthD)
  have "length (route u') \<le> 200" if "u' \<in> set vs'" for u'
  proof -
    from that obtain i where i: "i < length vs'" "u' = vs' ! i"
      by (auto simp: in_set_conv_nth)
    with rel len have "R (vs ! i) u'"
      by (simp add: list_all2_nthD)
    moreover have "length (route (vs ! i)) \<le> 200"
      using inv i len by simp
    ultimately show ?thesis by (simp add: R_def)
  qed
  with run len show "\<exists>vs' k'. runTicks es rnd k vs = Inr (vs', k') \<and> length vs' = length vs \<and>
       (\<forall>u\<in>set vs'. length (route u) \<le> 200)"
    by blast
qed

theorem trail_bound_witness:
  "(\<exists>v'. moveVessel seedHotspots 0 0 vessel001 = Inr v' \<and> length (route v') = 2 \<and>
      last (route v') = \<lparr>rp_lat = lat v', rp_lng = lng v', rp_eta = None, rp_completed = None\<rparr>) \<and>
   length (route vessel001) = 1 \<and> length (route vessel004) = 1 \<and>
   (\<exists>vs' k'. runTicks [(seedMissions, seedHotspots), (seedMissions, [])] zeroRnd 0
                 [vessel001, vessel004] = Inr (vs', k') \<and>
      length vs' = 2 \<and> (\<forall>u\<in>set vs'. length (route u) \<le> 200))"
proof -
  have l1: "length (route vessel001) = 1" and l4: "length (route vessel004) = 1"
    by (simp_all add: vessel001_def vessel004_def)
  have inv: "\<forall>u\<in>set [vessel001, vessel004]. length (route u) \<le> 200"
    using l1 l4 by simp
  note t = trail_bound [of seedHotspots 0 0 vessel001 "[vessel001, vessel004]"
      "[(seedMissions, seedHotspots), (seedMissions, [])]" zeroRnd 0]
  from t l1 have a: "\<exists>v'. moveVessel seedHotspots 0 0 vessel001 = Inr v' \<and>
      length (route v') = 2 \<and>
      last (route v') = \<lparr>rp_lat = lat v', rp_lng = lng v', rp_eta = None, rp_completed = None\<rparr>"
    by auto
  from t inv have b: "\<exists>vs' k'. runTicks [(seedMissions, seedHotspots), (seedMissions, [])]
      zeroRnd 0 [vessel001, vessel004] = Inr (vs', k') \<and>
      length vs' = 2 \<and> (\<forall>u\<in>set vs'. length (route u) \<le> 200)"
    by (auto simp del: runTicks.simps)
  from a b l1 l4 show ?thesis
    by blast
qed

section \<open>The battery\<close>

lemma stepRel_battery:
  assumes "stepRel A hs rnd u u'" and "\<forall>n. 0 \<le> rnd n"
  shows "0 \<le> battery u \<longrightarrow> 0 \<le> battery u' \<and> battery u' \<le> battery u"
proof (cases "skipped A u")
  case True
  with assms(1) have "u' = u" by (rule stepRel_skipped)
  then show ?thesis by simp
next
  case False
  with assms(1) obtain n where "moveVessel hs (rnd n) (rnd (n + 1)) u = Inr u'"
    by (auto simp: stepRel_def)
  then have "battery u' = max 0 (battery u - rnd (n + 1) * 0.1)"
    by (rule moveVessel_accumulators)
  moreover have "0 \<le> rnd (n + 1)"
    using assms(2) by blast
  ultimately show ?thesis
    by (auto simp: max_def)
qed

lemma runTicks_battery:
  assumes "\<forall>n. 0 \<le> rnd n"
  shows "\<exists>vs' k'. runTicks es rnd k vs = Inr (vs', k') \<and> length vs' = length vs \<and>
           (\<forall>i<length vs. 0 \<le> battery (vs ! i) \<longrightarrow>
              0 \<le> battery (vs' ! i) \<and> battery (vs' ! i) \<le> battery (vs ! i))"
proof -
  define R where
    "R u u' \<longleftrightarrow> (0 \<le> battery u \<longrightarrow> 0 \<le> battery u' \<and> battery u' \<le> battery u)"
    for u u' :: vessel
  have step: "R u u'" if "stepRel A hs rnd u u'" for A hs u u'
    unfolding R_def using that assms by (rule stepRel_battery)
  have "\<exists>vs' k'. runTicks es rnd k vs = Inr (vs', k') \<and> list_all2 R vs vs'"
  proof (rule runTicks_rel)
    show "R u u" for u by (simp add: R_def)
    show "R u w" if "R u v" "R v w" for u v w
      using that by (auto simp: R_def)
    show "R v v'" if "stepRel (activeAssigned ms) hs rnd v v'" for ms hs v v'
      using that by (rule step)
  qed
  then obtain vs' k' where run: "runTicks es rnd k vs = Inr (vs', k')"
    and rel: "list_all2 R vs vs'"
    by blast
  have len: "length vs' = length vs"
    using rel by (simp add: list_all2_lengthD)
  have "R (vs ! i) (vs' ! i)" if "i < length vs" for i
    using rel that by (rule list_all2_nthD)
  with run len show ?thesis
    unfolding R_def by blast
qed

text \<open>
  Claim C9. With draws of \<^verbatim>\<open>Math.random()\<close> in \<open>[0, 1)\<close>, a moved vessel's battery
  is never negative after the tick, and a battery that is not negative (a percentage,
  as in the seed data) stays so and never increases: after any run of ticks, however
  it is cut into a first part and a rest, the value after the whole run is at most the
  value after the first part, which is at most the initial value.
\<close>

theorem battery_floor:
  assumes rnd: "\<forall>n. 0 \<le> rnd n \<and> rnd n < 1"
  shows "(\<exists>v'. moveVessel hs (rnd n) (rnd (n + 1)) v = Inr v' \<and> 0 \<le> battery v' \<and>
            battery v' = max 0 (battery v - rnd (n + 1) * 0.1)) \<and>
         (\<exists>vs1 k1 vs2 k2.
            runTicks es1 rnd k vs = Inr (vs1, k1) \<and>
            runTicks (es1 @ es2) rnd k vs = Inr (vs2, k2) \<and>
            length vs1 = length vs \<and> length vs2 = length vs \<and>
            (\<forall>i<length vs. 0 \<le> battery (vs ! i) \<longrightarrow>
               0 \<le> battery (vs2 ! i) \<and> battery (vs2 ! i) \<le> battery (vs1 ! i) \<and>
               battery (vs1 ! i) \<le> battery (vs ! i)))"
proof
  obtain v' where v': "moveVessel hs (rnd n) (rnd (n + 1)) v = Inr v'"
    using moveVessel_total by blast
  then have "battery v' = max 0 (battery v - rnd (n + 1) * 0.1)"
    by (rule moveVessel_accumulators)
  with v' show "\<exists>v'. moveVessel hs (rnd n) (rnd (n + 1)) v = Inr v' \<and> 0 \<le> battery v' \<and>
            battery v' = max 0 (battery v - rnd (n + 1) * 0.1)"
    by simp
next
  have pos: "\<forall>n. 0 \<le> rnd n"
    using rnd by blast
  obtain vs1 k1 where r1: "runTicks es1 rnd k vs = Inr (vs1, k1)"
    and l1: "length vs1 = length vs"
    and b1: "\<forall>i<length vs. 0 \<le> battery (vs ! i) \<longrightarrow>
              0 \<le> battery (vs1 ! i) \<and> battery (vs1 ! i) \<le> battery (vs ! i)"
    using runTicks_battery [OF pos, of es1 k vs] by blast
  obtain vs2 k2 where r2: "runTicks es2 rnd k1 vs1 = Inr (vs2, k2)"
    and l2: "length vs2 = length vs1"
    and b2: "\<forall>i<length vs1. 0 \<le> battery (vs1 ! i) \<longrightarrow>
              0 \<le> battery (vs2 ! i) \<and> battery (vs2 ! i) \<le> battery (vs1 ! i)"
    using runTicks_battery [OF pos, of es2 k1 vs1] by blast
  have "runTicks (es1 @ es2) rnd k vs = Inr (vs2, k2)"
    by (simp add: runTicks_append r1 r2)
  moreover have "\<forall>i<length vs. 0 \<le> battery (vs ! i) \<longrightarrow>
               0 \<le> battery (vs2 ! i) \<and> battery (vs2 ! i) \<le> battery (vs1 ! i) \<and>
               battery (vs1 ! i) \<le> battery (vs ! i)"
    using b1 b2 l1 by auto
  ultimately show "\<exists>vs1 k1 vs2 k2.
            runTicks es1 rnd k vs = Inr (vs1, k1) \<and>
            runTicks (es1 @ es2) rnd k vs = Inr (vs2, k2) \<and>
            length vs1 = length vs \<and> length vs2 = length vs \<and>
            (\<forall>i<length vs. 0 \<le> battery (vs ! i) \<longrightarrow>
               0 \<le> battery (vs2 ! i) \<and> battery (vs2 ! i) \<le> battery (vs1 ! i) \<and>
               battery (vs1 ! i) \<le> battery (vs ! i))"
    using r1 l1 l2 by auto
qed

theorem battery_floor_witness:
  "zeroRnd 7 = 0 \<and> battery vessel001 = 87 \<and>
   (\<exists>v'. moveVessel seedHotspots (zeroRnd 0) (zeroRnd (0 + 1)) vessel001 = Inr v' \<and>
      0 \<le> battery v') \<and>
   (\<exists>vs1 k1 vs2 k2.
      runTicks [(seedMissions, seedHotspots)] zeroRnd 0 [vessel001] = Inr (vs1, k1) \<and>
      runTicks ([(seedMissions, seedHotspots)] @ [(seedMissions, [])]) zeroRnd 0 [vessel001]
        = Inr (vs2, k2) \<and>
      0 \<le> battery (vs2 ! 0) \<and> battery (vs2 ! 0) \<le> battery (vs1 ! 0) \<and>
      battery (vs1 ! 0) \<le> 87)"
proof -
  have h: "\<forall>n. 0 \<le> zeroRnd n \<and> zeroRnd n < 1"
    by (simp add: zeroRnd_def)
  have b: "battery vessel001 = 87"
    by (simp add: vessel001_def)
  note t = battery_floor [OF h, of seedHotspots 0 vessel001 "[(seedMissions, seedHotspots)]"
      0 "[vessel001]" "[(seedMissions, [])]"]
  from t have a: "\<exists>v'. moveVessel seedHotspots (zeroRnd 0) (zeroRnd (0 + 1)) vessel001 = Inr v' \<and>
      0 \<le> battery v'"
    by blast
  from t obtain vs1 k1 vs2 k2 where
    r: "runTicks [(seedMissions, seedHotspots)] zeroRnd 0 [vessel001] = Inr (vs1, k1)"
      "runTicks ([(seedMissions, seedHotspots)] @ [(seedMissions, [])]) zeroRnd 0 [vessel001]
        = Inr (vs2, k2)"
    and m: "\<forall>i<length [vessel001]. 0 \<le> battery ([vessel001] ! i) \<longrightarrow>
               0 \<le> battery (vs2 ! i) \<and> battery (vs2 ! i) \<le> battery (vs1 ! i) \<and>
               battery (vs1 ! i) \<le> battery ([vessel001] ! i)"
    by blast
  from m b have "0 \<le> battery (vs2 ! 0) \<and> battery (vs2 ! 0) \<le> battery (vs1 ! 0) \<and>
      battery (vs1 ! 0) \<le> 87"
    by simp
  with r a b show ?thesis
    by (simp only: zeroRnd_def) blast
qed

section \<open>What a tick may change\<close>

text \<open>
  Claim C10. A tick always returns; it leaves the hotspot list and the mission list
  of the store as they were, keeps the number and order of the vessels, and each vessel
  after the tick is the vessel before it up to the fields \<^verbatim>\<open>lat\<close>, \<^verbatim>\<open>lng\<close>,
  \<^verbatim>\<open>route\<close>, \<^verbatim>\<open>plan\<close>, \<^verbatim>\<open>plasticCollected\<close> and \<^verbatim>\<open>battery\<close>: its id, name,
  type, status, speed and current target are unchanged.
\<close>

theorem tick_frame:
  "\<exists>s' k'. updateVesselPositions rnd k s = Inr (s', k') \<and>
     plasticHotspots s' = plasticHotspots s \<and> missions s' = missions s \<and>
     length (vessels s') = length (vessels s) \<and>
     (\<forall>i<length (vessels s).
        vessels s' ! i =
          (vessels s ! i)\<lparr>lat := lat (vessels s' ! i), lng := lng (vessels s' ! i),
                           route := route (vessels s' ! i), plan := plan (vessels s' ! i),
                           plasticCollected := plasticCollected (vessels s' ! i),
                           battery := battery (vessels s' ! i)\<rparr> \<and>
        vid (vessels s' ! i) = vid (vessels s ! i) \<and>
        name (vessels s' ! i) = name (vessels s ! i) \<and>
        vtype (vessels s' ! i) = vtype (vessels s ! i) \<and>
        status (vessels s' ! i) = status (vessels s ! i) \<and>
        speed (vessels s' ! i) = speed (vessels s ! i) \<and>
        currentTarget (vessels s' ! i) = currentTarget (vessels s ! i))"
proof -
  obtain vs' k' where t: "updateVesselPositions rnd k s = Inr (s\<lparr>vessels := vs'\<rparr>, k')"
    and rel: "list_all2 (stepRel (activeAssigned (missions s)) (plasticHotspots s) rnd)
                (vessels s) vs'"
    using updateVesselPositions_rel [of rnd k s] by blast
  have len: "length vs' = length (vessels s)"
    using rel by (simp add: list_all2_lengthD)
  have fr: "vs' ! i =
          (vessels s ! i)\<lparr>lat := lat (vs' ! i), lng := lng (vs' ! i),
                           route := route (vs' ! i), plan := plan (vs' ! i),
                           plasticCollected := plasticCollected (vs' ! i),
                           battery := battery (vs' ! i)\<rparr>" if "i < length (vessels s)" for i
  proof -
    have "stepRel (activeAssigned (missions s)) (plasticHotspots s) rnd (vessels s ! i) (vs' ! i)"
      using rel that by (rule list_all2_nthD)
    then show ?thesis by (rule stepRel_frame)
  qed
  have fields: "vid (vs' ! i) = vid (vessels s ! i) \<and>
        name (vs' ! i) = name (vessels s ! i) \<and>
        vtype (vs' ! i) = vtype (vessels s ! i) \<and>
        status (vs' ! i) = status (vessels s ! i) \<and>
        speed (vs' ! i) = speed (vessels s ! i) \<and>
        currentTarget (vs' ! i) = currentTarget (vessels s ! i)" if "i < length (vessels s)" for i
  proof -
    obtain a b c d e f where "vs' ! i =
      (vessels s ! i)\<lparr>lat := a, lng := b, route := c, plan := d,
                       plasticCollected := e, battery := f\<rparr>"
      using fr [OF \<open>i < length (vessels s)\<close>] by blast
    then show ?thesis by simp
  qed
  show ?thesis
    using t len fr fields by (intro exI [of _ "s\<lparr>vessels := vs'\<rparr>"] exI [of _ k']) simp
qed

theorem tick_frame_witness:
  "\<exists>s' k'. updateVesselPositions zeroRnd 0
       \<lparr>vessels = [vessel001, vessel004], plasticHotspots = seedHotspots,
        missions = seedMissions\<rparr> = Inr (s', k') \<and>
     plasticHotspots s' = seedHotspots \<and> missions s' = seedMissions \<and>
     length (vessels s') = 2 \<and>
     vid (vessels s' ! 0) = ''vessel-001'' \<and> status (vessels s' ! 0) = VActive \<and>
     speed (vessels s' ! 0) = 12.5 \<and> currentTarget (vessels s' ! 0) = None \<and>
     vid (vessels s' ! 1) = ''vessel-004'' \<and> vtype (vessels s' ! 1) = Ship"
proof -
  let ?s = "\<lparr>vessels = [vessel001, vessel004], plasticHotspots = seedHotspots,
        missions = seedMissions\<rparr>"
  from tick_frame [of zeroRnd 0 ?s] obtain s' k' where
    t: "updateVesselPositions zeroRnd 0 ?s = Inr (s', k')"
    and e: "plasticHotspots s' = seedHotspots" "missions s' = seedMissions"
      "length (vessels s') = 2"
    and f: "\<forall>i<length (vessels ?s).
        vid (vessels s' ! i) = vid (vessels ?s ! i) \<and>
        name (vessels s' ! i) = name (vessels ?s ! i) \<and>
        vtype (vessels s' ! i) = vtype (vessels ?s ! i) \<and>
        status (vessels s' ! i) = status (vessels ?s ! i) \<and>
        speed (vessels s' ! i) = speed (vessels ?s ! i) \<and>
        currentTarget (vessels s' ! i) = currentTarget (vessels ?s ! i)"
    by auto
  from f [rule_format, of 0] f [rule_format, of 1]
  have "vid (vessels s' ! 0) = ''vessel-001'' \<and> status (vessels s' ! 0) = VActive \<and>
     speed (vessels s' ! 0) = 12.5 \<and> currentTarget (vessels s' ! 0) = None \<and>
     vid (vessels s' ! 1) = ''vessel-004'' \<and> vtype (vessels s' ! 1) = Ship"
    by (simp add: vessel001_def vessel004_def)
  with t e show ?thesis
    by blast
qed

section \<open>The planner\<close>

lemma map_insort_key: "map f (insort_key f x xs) = insort (f x) (map f xs)"
  by (induction xs) auto

lemma map_sort_key: "map f (sort_key f xs) = sort (map f xs)"
  by (induction xs) (auto simp: map_insort_key)

lemma nearest_distances:
  "map (\<lambda>w. hypot (wp_lat w - clat) (wp_lng w - clng)) (nearest clat clng hs) =
     take 3 (sort (map (\<lambda>h. hypot (h_lat h - clat) (h_lng h - clng)) hs))"
proof -
  let ?pairs = "map (\<lambda>h. (h, hypot (h_lat h - clat) (h_lng h - clng))) hs"
  have snd_eq: "hypot (h_lat (fst x) - clat) (h_lng (fst x) - clng) = snd x"
    if "x \<in> set (take 3 (sort_key snd ?pairs))" for x
  proof -
    from that have "x \<in> set (sort_key snd ?pairs)"
      by (rule in_set_takeD)
    then show ?thesis by auto
  qed
  have "map (\<lambda>w. hypot (wp_lat w - clat) (wp_lng w - clng)) (nearest clat clng hs) =
          map (\<lambda>x. hypot (h_lat (fst x) - clat) (h_lng (fst x) - clng))
            (take 3 (sort_key snd ?pairs))"
    by (simp add: nearest_def comp_def)
  also have "\<dots> = map snd (take 3 (sort_key snd ?pairs))"
    by (rule map_cong) (simp_all add: snd_eq)
  also have "\<dots> = take 3 (sort (map snd ?pairs))"
    by (simp only: take_map [symmetric] map_sort_key)
  also have "map snd ?pairs = map (\<lambda>h. hypot (h_lat h - clat) (h_lng h - clng)) hs"
    by (simp add: comp_def)
  finally show ?thesis .
qed

lemma nearest_drawn:
  assumes "w \<in> set (nearest clat clng hs)"
  shows "\<exists>h\<in>set hs. wp_lat w = h_lat h \<and> wp_lng w = h_lng h"
proof -
  let ?pairs = "map (\<lambda>h. (h, hypot (h_lat h - clat) (h_lng h - clng))) hs"
  from assms obtain x where x: "x \<in> set (take 3 (sort_key snd ?pairs))"
    and w: "w = \<lparr>wp_lat = h_lat (fst x), wp_lng = h_lng (fst x), wp_completed = Some False\<rparr>"
    by (auto simp: nearest_def)
  from x have "x \<in> set (sort_key snd ?pairs)"
    by (rule in_set_takeD)
  then have "fst x \<in> set hs" by auto
  with w show ?thesis by auto
qed

lemma freshPlan_nearest:
  assumes "hs \<noteq> []"
  shows "freshPlan clat clng hs = nearest clat clng hs"
proof -
  have "0 < length (nearest clat clng hs)"
    using assms by (simp add: length_nearest)
  then show ?thesis
    by (simp add: freshPlan_def Let_def)
qed

lemma nextPlanOf_fresh:
  "filter incomplete (planOf v) = [] \<Longrightarrow>
     nextPlanOf hs v = freshPlan (lat v) (lng v) hs"
  by (simp add: nextPlanOf_def Let_def)

text \<open>
  Claim C2. For a non-empty hotspot list the generated plan has \<open>min 3 (length hs)\<close>
  waypoints, hence at most three; every waypoint has the coordinates of a hotspot of
  the list and the flag \<^verbatim>\<open>completed = false\<close>; the planar distances of the waypoints
  from the planning position are ascending, and they are the first three entries of
  the sorted list of all hotspot distances. The plan is a function of the position and
  the hotspot list alone: two vessels at the same position that both need a plan get
  the same plan, whatever their other fields.
\<close>

theorem plan_bound:
  assumes "hs \<noteq> []"
  shows "length (freshPlan clat clng hs) = min 3 (length hs) \<and>
         length (freshPlan clat clng hs) \<le> 3 \<and>
         (\<forall>w\<in>set (freshPlan clat clng hs).
            (\<exists>h\<in>set hs. wp_lat w = h_lat h \<and> wp_lng w = h_lng h) \<and>
            wp_completed w = Some False) \<and>
         sorted (map (\<lambda>w. hypot (wp_lat w - clat) (wp_lng w - clng)) (freshPlan clat clng hs)) \<and>
         map (\<lambda>w. hypot (wp_lat w - clat) (wp_lng w - clng)) (freshPlan clat clng hs) =
           take 3 (sort (map (\<lambda>h. hypot (h_lat h - clat) (h_lng h - clng)) hs)) \<and>
         (\<forall>v u. lat v = clat \<and> lng v = clng \<and> lat u = clat \<and> lng u = clng \<and>
            filter incomplete (planOf v) = [] \<and>
            filter incomplete (planOf u) = [] \<longrightarrow>
            nextPlanOf hs v = freshPlan clat clng hs \<and> nextPlanOf hs u = nextPlanOf hs v)"
proof -
  have fp: "freshPlan clat clng hs = nearest clat clng hs"
    using assms by (rule freshPlan_nearest)
  have len: "length (freshPlan clat clng hs) = min 3 (length hs)"
    by (simp add: fp length_nearest)
  have drawn: "\<forall>w\<in>set (freshPlan clat clng hs).
            (\<exists>h\<in>set hs. wp_lat w = h_lat h \<and> wp_lng w = h_lng h) \<and>
            wp_completed w = Some False"
    unfolding fp using nearest_drawn nearest_incomplete by blast
  have dist: "map (\<lambda>w. hypot (wp_lat w - clat) (wp_lng w - clng)) (freshPlan clat clng hs) =
           take 3 (sort (map (\<lambda>h. hypot (h_lat h - clat) (h_lng h - clng)) hs))"
    unfolding fp by (rule nearest_distances)
  have srt: "sorted (map (\<lambda>w. hypot (wp_lat w - clat) (wp_lng w - clng)) (freshPlan clat clng hs))"
    unfolding dist by (simp add: sorted_wrt_take)
  have det: "\<forall>v u. lat v = clat \<and> lng v = clng \<and> lat u = clat \<and> lng u = clng \<and>
            filter incomplete (planOf v) = [] \<and>
            filter incomplete (planOf u) = [] \<longrightarrow>
            nextPlanOf hs v = freshPlan clat clng hs \<and> nextPlanOf hs u = nextPlanOf hs v"
    by (auto simp: nextPlanOf_fresh)
  from len have le3: "length (freshPlan clat clng hs) \<le> 3"
    by simp
  show ?thesis
    by (intro conjI) (fact len le3 drawn srt dist det)+
qed

theorem plan_bound_witness:
  "length seedHotspots = 3 \<and>
   length (freshPlan (lat vessel001) (lng vessel001) seedHotspots) = 3 \<and>
   sorted (map (\<lambda>w. hypot (wp_lat w - lat vessel001) (wp_lng w - lng vessel001))
     (freshPlan (lat vessel001) (lng vessel001) seedHotspots)) \<and>
   list_all (\<lambda>w. wp_completed w = Some False)
     (freshPlan (lat vessel001) (lng vessel001) seedHotspots) \<and>
   nextPlanOf seedHotspots vessel001 = freshPlan (lat vessel001) (lng vessel001) seedHotspots"
proof -
  have l: "length seedHotspots = 3"
    by (simp add: seedHotspots_def)
  then have ne: "seedHotspots \<noteq> []"
    by auto
  have p: "filter incomplete (planOf vessel001) = []"
    by (simp add: vessel001_def planOf_def)
  note t = plan_bound [OF ne, of "lat vessel001" "lng vessel001"]
  from t l have "length (freshPlan (lat vessel001) (lng vessel001) seedHotspots) = 3"
    by simp
  moreover from t have "list_all (\<lambda>w. wp_completed w = Some False)
     (freshPlan (lat vessel001) (lng vessel001) seedHotspots)"
    unfolding list_all_iff by blast
  moreover from t p have
    "nextPlanOf seedHotspots vessel001 = freshPlan (lat vessel001) (lng vessel001) seedHotspots"
    by blast
  ultimately show ?thesis
    using t l by blast
qed

section \<open>Arrival\<close>

lemma moveVessel_fields:
  assumes i: "findIndex incomplete (nextPlanOf hs v) = Some i"
    and m: "moveVessel hs r1 r2 v = Inr v'"
  shows "lat v' = lat v + stepLat v (nextPlanOf hs v ! i)"
    and "lng v' = lng v + stepLng v (nextPlanOf hs v ! i)"
    and "plan v' = Some
           (if arrived (dKm (lat v') (lng v')
                 (wp_lat (nextPlanOf hs v ! i)) (wp_lng (nextPlanOf hs v ! i)))
            then (nextPlanOf hs v)[i := (nextPlanOf hs v ! i)\<lparr>wp_completed := Some True\<rparr>]
            else nextPlanOf hs v)"
  using m unfolding moveVessel_eq [OF i] by auto

lemma arrived_iff: "arrived d \<longleftrightarrow> (\<exists>x. d = Some x \<and> x < 5000)"
  by (cases d) (simp_all add: arrived_def)

lemma toRad_bounds:
  assumes "- 90 \<le> x" "x \<le> 90"
  shows "- (pi / 2) \<le> toRad x" and "toRad x \<le> pi / 2"
proof -
  have "x * pi \<le> 90 * pi"
    using assms(2) by (intro mult_right_mono) simp_all
  then show "toRad x \<le> pi / 2"
    by (simp add: toRad_def)
  have "(- 90) * pi \<le> x * pi"
    using assms(1) by (intro mult_right_mono) simp_all
  then show "- (pi / 2) \<le> toRad x"
    by (simp add: toRad_def)
qed

lemma haversineA_nonneg:
  assumes "- 90 \<le> lat1" "lat1 \<le> 90" "- 90 \<le> lat2" "lat2 \<le> 90"
  shows "0 \<le> haversineA lat1 lng1 lat2 lng2"
proof -
  have "0 \<le> cos (toRad lat1)"
    using assms(1,2) by (intro cos_ge_zero toRad_bounds)
  moreover have "0 \<le> cos (toRad lat2)"
    using assms(3,4) by (intro cos_ge_zero toRad_bounds)
  ultimately show ?thesis
    by (simp add: haversineA_def Let_def)
qed

lemma dKm_range:
  assumes "0 \<le> haversineA lat1 lng1 lat2 lng2"
  shows "\<exists>d. dKm lat1 lng1 lat2 lng2 = Some d \<and> 0 \<le> d \<and> d \<le> 6371000 * pi"
proof -
  let ?a = "haversineA lat1 lng1 lat2 lng2"
  let ?m = "min 1 (sqrt ?a)"
  have m: "0 \<le> ?m" "?m \<le> 1"
    using assms by simp_all
  have "arcsin 0 \<le> arcsin ?m"
    using m by (intro arcsin_le_arcsin) simp_all
  then have lo: "0 \<le> arcsin ?m" by simp
  have "- 1 \<le> ?m"
    using m(1) by linarith
  then have hi: "arcsin ?m \<le> pi / 2"
    using m(2) by (rule arcsin_ubound)
  have "dKm lat1 lng1 lat2 lng2 = Some (2 * 6371000 * arcsin ?m)"
    using assms by (simp add: dKm_def Let_def)
  moreover have "0 \<le> 2 * 6371000 * arcsin ?m"
    using lo by simp
  moreover have "2 * 6371000 * arcsin ?m \<le> 6371000 * pi"
    using hi by simp
  ultimately show ?thesis by blast
qed

lemma findIndex_first: "xs \<noteq> [] \<Longrightarrow> P (hd xs) \<Longrightarrow> findIndex P xs = Some 0"
  by (cases xs) simp_all

lemma freshPlan_target: "findIndex incomplete (freshPlan clat clng hs) = Some 0"
proof (rule findIndex_first)
  show ne: "freshPlan clat clng hs \<noteq> []"
    by (rule freshPlan_nonempty)
  then have "hd (freshPlan clat clng hs) \<in> set (freshPlan clat clng hs)"
    by (rule hd_in_set)
  then show "incomplete (hd (freshPlan clat clng hs))"
    by (auto simp: incomplete_def dest: freshPlan_incomplete)
qed

lemma meters_ge: "1 / 2 \<le> meters v"
  by (simp add: meters_def metersPerSec_def max_def)

lemma stepLat_bound: "\<bar>stepLat v t\<bar> \<le> meters v / 111000"
proof -
  have m: "0 \<le> meters v"
    using meters_ge [of v] by linarith
  have "\<bar>stepLat v t\<bar> =
      \<bar>cos (bearing (lat v) (lng v) (wp_lat t) (wp_lng t))\<bar> * (meters v / 111000)"
    using m by (simp add: stepLat_def degLatPerMeter_def abs_mult)
  also have "\<dots> \<le> 1 * (meters v / 111000)"
    using m by (intro mult_right_mono) simp_all
  finally show ?thesis by simp
qed

lemma seed_lats: "h \<in> set seedHotspots \<Longrightarrow> - 90 \<le> h_lat h \<and> h_lat h \<le> 90"
  by (auto simp: seedHotspots_def)

lemma seed_plan_vessel001:
  "nextPlanOf seedHotspots vessel001 = nearest (lat vessel001) (lng vessel001) seedHotspots"
  "length (nextPlanOf seedHotspots vessel001) = 3"
  "findIndex incomplete (nextPlanOf seedHotspots vessel001) = Some 0"
proof -
  have p: "filter incomplete (planOf vessel001) = []"
    by (simp add: vessel001_def planOf_def)
  have ne: "seedHotspots \<noteq> []"
    by (simp add: seedHotspots_def)
  show n: "nextPlanOf seedHotspots vessel001 = nearest (lat vessel001) (lng vessel001) seedHotspots"
    by (simp add: nextPlanOf_fresh [OF p] freshPlan_nearest [OF ne])
  show "length (nextPlanOf seedHotspots vessel001) = 3"
    unfolding n by (simp add: length_nearest seedHotspots_def)
  show "findIndex incomplete (nextPlanOf seedHotspots vessel001) = Some 0"
    by (simp add: nextPlanOf_fresh [OF p] freshPlan_target)
qed

text \<open>
  Claim C5. A moved vessel steps from its old position towards the target, the first
  incomplete waypoint of the plan in force. The distance that decides arrival is the
  haversine distance, with radius 6371000 m, from the position the vessel has after
  the step to the target. The target is incomplete before the tick; after the tick it
  is completed exactly when that distance is a number below 5000, and no other entry
  of the plan is touched. Between latitudes of at most 90 degrees the distance is a
  number between 0 and half the circumference.
\<close>

theorem arrival_threshold:
  "\<exists>v' i p'. moveVessel hs r1 r2 v = Inr v' \<and>
     findIndex incomplete (nextPlanOf hs v) = Some i \<and> i < length (nextPlanOf hs v) \<and>
     incomplete (nextPlanOf hs v ! i) \<and>
     lat v' = lat v + stepLat v (nextPlanOf hs v ! i) \<and>
     lng v' = lng v + stepLng v (nextPlanOf hs v ! i) \<and>
     plan v' = Some p' \<and> length p' = length (nextPlanOf hs v) \<and>
     wp_lat (p' ! i) = wp_lat (nextPlanOf hs v ! i) \<and>
     wp_lng (p' ! i) = wp_lng (nextPlanOf hs v ! i) \<and>
     (wp_completed (p' ! i) = Some True \<longleftrightarrow>
        (\<exists>d. dKm (lat v') (lng v') (wp_lat (p' ! i)) (wp_lng (p' ! i)) = Some d \<and> d < 5000)) \<and>
     (\<forall>j<length p'. j \<noteq> i \<longrightarrow> p' ! j = nextPlanOf hs v ! j) \<and>
     dKm (lat v') (lng v') (wp_lat (p' ! i)) (wp_lng (p' ! i)) =
       (if (sin (toRad (wp_lat (p' ! i) - lat v') / 2))\<^sup>2 +
             cos (toRad (lat v')) * cos (toRad (wp_lat (p' ! i))) *
             (sin (toRad (wp_lng (p' ! i) - lng v') / 2))\<^sup>2 < 0
        then None
        else Some (2 * 6371000 * arcsin (min 1 (sqrt
          ((sin (toRad (wp_lat (p' ! i) - lat v') / 2))\<^sup>2 +
             cos (toRad (lat v')) * cos (toRad (wp_lat (p' ! i))) *
             (sin (toRad (wp_lng (p' ! i) - lng v') / 2))\<^sup>2))))) \<and>
     (- 90 \<le> lat v' \<and> lat v' \<le> 90 \<and> - 90 \<le> wp_lat (p' ! i) \<and> wp_lat (p' ! i) \<le> 90 \<longrightarrow>
        (\<exists>d. dKm (lat v') (lng v') (wp_lat (p' ! i)) (wp_lng (p' ! i)) = Some d \<and>
           0 \<le> d \<and> d \<le> 6371000 * pi))"
proof -
  let ?np = "nextPlanOf hs v"
  obtain i where i: "findIndex incomplete ?np = Some i"
    using targetIndex_nextPlanOf [of hs v] by blast
  obtain v' where v': "moveVessel hs r1 r2 v = Inr v'"
    using moveVessel_total by blast
  let ?t = "?np ! i"
  let ?d = "dKm (lat v') (lng v') (wp_lat ?t) (wp_lng ?t)"
  let ?p' = "if arrived ?d then ?np[i := ?t\<lparr>wp_completed := Some True\<rparr>] else ?np"
  note f = moveVessel_fields [OF i v']
  from findIndex_Some [OF i] have il: "i < length ?np" and inc: "incomplete ?t"
    by simp_all
  have len: "length ?p' = length ?np"
    by simp
  have co: "wp_lat (?p' ! i) = wp_lat ?t" "wp_lng (?p' ! i) = wp_lng ?t"
    using il by simp_all
  have flag: "wp_completed (?p' ! i) = Some True \<longleftrightarrow> arrived ?d"
    using il inc by (simp add: incomplete_def)
  have iff: "wp_completed (?p' ! i) = Some True \<longleftrightarrow>
      (\<exists>d. dKm (lat v') (lng v') (wp_lat (?p' ! i)) (wp_lng (?p' ! i)) = Some d \<and> d < 5000)"
    unfolding flag co by (rule arrived_iff)
  have others: "\<forall>j<length ?p'. j \<noteq> i \<longrightarrow> ?p' ! j = ?np ! j"
    by simp
  have formula: "dKm (lat v') (lng v') (wp_lat (?p' ! i)) (wp_lng (?p' ! i)) =
       (if (sin (toRad (wp_lat (?p' ! i) - lat v') / 2))\<^sup>2 +
             cos (toRad (lat v')) * cos (toRad (wp_lat (?p' ! i))) *
             (sin (toRad (wp_lng (?p' ! i) - lng v') / 2))\<^sup>2 < 0
        then None
        else Some (2 * 6371000 * arcsin (min 1 (sqrt
          ((sin (toRad (wp_lat (?p' ! i) - lat v') / 2))\<^sup>2 +
             cos (toRad (lat v')) * cos (toRad (wp_lat (?p' ! i))) *
             (sin (toRad (wp_lng (?p' ! i) - lng v') / 2))\<^sup>2)))))"
    by (simp only: dKm_def haversineA_def Let_def)
  have range: "- 90 \<le> lat v' \<and> lat v' \<le> 90 \<and>
        - 90 \<le> wp_lat (?p' ! i) \<and> wp_lat (?p' ! i) \<le> 90 \<longrightarrow>
        (\<exists>d. dKm (lat v') (lng v') (wp_lat (?p' ! i)) (wp_lng (?p' ! i)) = Some d \<and>
           0 \<le> d \<and> d \<le> 6371000 * pi)"
    by (intro impI dKm_range haversineA_nonneg) simp_all
  show ?thesis
    by (intro exI [of _ v'] exI [of _ i] exI [of _ ?p'] conjI)
      (fact v' i il inc f len co iff others formula range)+
qed

theorem arrival_threshold_witness:
  "\<exists>v' p'. moveVessel seedHotspots 0 0 vessel001 = Inr v' \<and>
     findIndex incomplete (nextPlanOf seedHotspots vessel001) = Some 0 \<and>
     plan v' = Some p' \<and> length p' = 3 \<and> (1::nat) < 3 \<and> (1::nat) \<noteq> 0 \<and>
     p' ! 1 = nextPlanOf seedHotspots vessel001 ! 1 \<and>
     - 90 \<le> lat v' \<and> lat v' \<le> 90 \<and> - 90 \<le> wp_lat (p' ! 0) \<and> wp_lat (p' ! 0) \<le> 90 \<and>
     (wp_completed (p' ! 0) = Some True \<longleftrightarrow>
        (\<exists>d. dKm (lat v') (lng v') (wp_lat (p' ! 0)) (wp_lng (p' ! 0)) = Some d \<and> d < 5000)) \<and>
     (\<exists>d. dKm (lat v') (lng v') (wp_lat (p' ! 0)) (wp_lng (p' ! 0)) = Some d \<and>
        0 \<le> d \<and> d \<le> 6371000 * pi)"
proof -
  let ?np = "nextPlanOf seedHotspots vessel001"
  from arrival_threshold [of seedHotspots 0 0 vessel001] obtain v' i p' where
    mv: "moveVessel seedHotspots 0 0 vessel001 = Inr v'"
    and i: "findIndex incomplete ?np = Some i"
    and la: "lat v' = lat vessel001 + stepLat vessel001 (?np ! i)"
    and pl: "plan v' = Some p'" "length p' = length ?np"
    and co: "wp_lat (p' ! i) = wp_lat (?np ! i)"
    and iff: "wp_completed (p' ! i) = Some True \<longleftrightarrow>
        (\<exists>d. dKm (lat v') (lng v') (wp_lat (p' ! i)) (wp_lng (p' ! i)) = Some d \<and> d < 5000)"
    and others: "\<forall>j<length p'. j \<noteq> i \<longrightarrow> p' ! j = ?np ! j"
    and range: "- 90 \<le> lat v' \<and> lat v' \<le> 90 \<and>
        - 90 \<le> wp_lat (p' ! i) \<and> wp_lat (p' ! i) \<le> 90 \<longrightarrow>
        (\<exists>d. dKm (lat v') (lng v') (wp_lat (p' ! i)) (wp_lng (p' ! i)) = Some d \<and>
           0 \<le> d \<and> d \<le> 6371000 * pi)"
    by blast
  have i0: "i = 0"
    using i unfolding seed_plan_vessel001(3) by simp
  have len: "length p' = 3"
    using pl(2) unfolding seed_plan_vessel001(2) .
  have o1: "p' ! 1 = ?np ! 1"
    using others len i0 by simp
  have "meters vessel001 / 111000 \<le> 1"
    by (simp add: meters_def metersPerSec_def vessel001_def)
  with stepLat_bound [of vessel001 "?np ! 0"] have "\<bar>stepLat vessel001 (?np ! 0)\<bar> \<le> 1"
    by linarith
  then have lv: "- 90 \<le> lat v' \<and> lat v' \<le> 90"
    unfolding la i0 by (simp add: vessel001_def abs_le_iff)
  have "?np ! 0 \<in> set (nearest (lat vessel001) (lng vessel001) seedHotspots)"
    using seed_plan_vessel001(1,2) by (metis nth_mem zero_less_numeral)
  then obtain h where "h \<in> set seedHotspots" "wp_lat (?np ! 0) = h_lat h"
    using nearest_drawn by blast
  then have lt: "- 90 \<le> wp_lat (p' ! 0) \<and> wp_lat (p' ! 0) \<le> 90"
    using co seed_lats unfolding i0 by simp
  from range lv lt have "\<exists>d. dKm (lat v') (lng v') (wp_lat (p' ! 0)) (wp_lng (p' ! 0)) = Some d \<and>
        0 \<le> d \<and> d \<le> 6371000 * pi"
    unfolding i0 by blast
  with mv i pl(1) len o1 lv lt iff show ?thesis
    unfolding i0 by (intro exI [of _ v'] exI [of _ p']) simp
qed

section \<open>Completed waypoints stay completed\<close>

lemma planLe_refl: "planLe p p"
  by (simp add: planLe_def)

lemma planLe_mark: "i < length p \<Longrightarrow> planLe p (p[i := (p ! i)\<lparr>wp_completed := Some True\<rparr>])"
  by (auto simp: planLe_def nth_list_update)

lemma nextPlanOf_retained: "filter incomplete (planOf v) \<noteq> [] \<Longrightarrow> nextPlanOf hs v = planOf v"
  by (simp add: nextPlanOf_def Let_def)

lemma findIndex_before: "findIndex P xs = Some i \<Longrightarrow> j < i \<Longrightarrow> \<not> P (xs ! j)"
  using findIndex_Some by blast

lemma moveVessel_target:
  "\<exists>v' i. moveVessel hs r1 r2 v = Inr v' \<and>
     findIndex incomplete (nextPlanOf hs v) = Some i \<and> i < length (nextPlanOf hs v) \<and>
     incomplete (nextPlanOf hs v ! i) \<and>
     (\<forall>j<i. wp_completed (nextPlanOf hs v ! j) = Some True) \<and>
     lat v' = lat v + stepLat v (nextPlanOf hs v ! i) \<and>
     lng v' = lng v + stepLng v (nextPlanOf hs v ! i) \<and>
     planLe (nextPlanOf hs v) (planOf v')"
proof -
  let ?np = "nextPlanOf hs v"
  obtain i where i: "findIndex incomplete ?np = Some i"
    using targetIndex_nextPlanOf [of hs v] by blast
  obtain v' where v': "moveVessel hs r1 r2 v = Inr v'"
    using moveVessel_total by blast
  note f = moveVessel_fields [OF i v']
  from findIndex_Some [OF i] have il: "i < length ?np" and inc: "incomplete (?np ! i)"
    by simp_all
  have before: "\<forall>j<i. wp_completed (?np ! j) = Some True"
    using findIndex_before [OF i] by (simp add: incomplete_def)
  have "planLe ?np (planOf v')"
    unfolding planOf_def f(3) using il by (simp add: planLe_refl planLe_mark)
  with v' i il inc before f(1,2) show ?thesis
    by blast
qed

lemma planLe_trans: "planLe p q \<Longrightarrow> planLe q r \<Longrightarrow> planLe p r"
  by (auto simp: planLe_def)

lemma stepRel_retained:
  assumes "stepRel A hs rnd v v'"
    and "skipped A v \<or> filter incomplete (planOf v) \<noteq> []"
  shows "planLe (planOf v) (planOf v')"
proof (cases "skipped A v")
  case True
  with assms(1) have "v' = v" by (rule stepRel_skipped)
  then show ?thesis by (simp add: planLe_refl)
next
  case False
  with assms(1) obtain n where m: "moveVessel hs (rnd n) (rnd (n + 1)) v = Inr v'"
    by (auto simp: stepRel_def)
  from False assms(2) have "nextPlanOf hs v = planOf v"
    by (simp add: nextPlanOf_retained)
  with moveVessel_target [of hs "rnd n" "rnd (n + 1)" v] m show ?thesis
    by auto
qed

lemma retained_run:
  assumes "i < length vs" "retainedRun es rnd k vs i"
  shows "\<exists>vs' k'. runTicks es rnd k vs = Inr (vs', k') \<and> length vs' = length vs \<and>
           planLe (planOf (vs ! i)) (planOf (vs' ! i))"
  using assms
proof (induction es arbitrary: vs k)
  case Nil
  show ?case by (simp add: planLe_refl)
next
  case (Cons e es)
  let ?s = "\<lparr>vessels = vs, plasticHotspots = snd e, missions = fst e\<rparr>"
  obtain vs1 k1 where
    t: "updateVesselPositions rnd k ?s = Inr (?s\<lparr>vessels := vs1\<rparr>, k1)"
    and r: "list_all2 (stepRel (activeAssigned (fst e)) (snd e) rnd) vs vs1"
    using updateVesselPositions_rel [of rnd k ?s] by auto
  have len1: "length vs1 = length vs"
    using r by (simp add: list_all2_lengthD)
  have sr: "stepRel (activeAssigned (fst e)) (snd e) rnd (vs ! i) (vs1 ! i)"
    using r Cons.prems(1) by (rule list_all2_nthD)
  from Cons.prems(2) t have
    c: "skipped (activeAssigned (fst e)) (vs ! i) \<or> filter incomplete (planOf (vs ! i)) \<noteq> []"
    and rest: "retainedRun es rnd k1 vs1 i"
    by simp_all
  have le1: "planLe (planOf (vs ! i)) (planOf (vs1 ! i))"
    using sr c by (rule stepRel_retained)
  from Cons.IH [of vs1 k1] Cons.prems(1) len1 rest obtain vs' k' where
    run: "runTicks es rnd k1 vs1 = Inr (vs', k')"
    and len: "length vs' = length vs1"
    and le: "planLe (planOf (vs1 ! i)) (planOf (vs' ! i))"
    by auto
  have "runTicks (e # es) rnd k vs = Inr (vs', k')"
    using t run by simp
  with len len1 planLe_trans [OF le1 le] show ?case
    by simp
qed

lemma tick_plan_retained:
  "\<exists>s' k'. updateVesselPositions rnd k s = Inr (s', k') \<and>
     length (vessels s') = length (vessels s) \<and>
     (\<forall>n<length (vessels s).
        (skipped (activeAssigned (missions s)) (vessels s ! n) \<or>
         filter incomplete (planOf (vessels s ! n)) \<noteq> [] \<longrightarrow>
           planLe (planOf (vessels s ! n)) (planOf (vessels s' ! n))) \<and>
        (\<not> skipped (activeAssigned (missions s)) (vessels s ! n) \<longrightarrow>
           (\<exists>i. findIndex incomplete (nextPlanOf (plasticHotspots s) (vessels s ! n)) = Some i \<and>
              incomplete (nextPlanOf (plasticHotspots s) (vessels s ! n) ! i) \<and>
              (\<forall>j<i. wp_completed (nextPlanOf (plasticHotspots s) (vessels s ! n) ! j)
                        = Some True) \<and>
              lat (vessels s' ! n) = lat (vessels s ! n) +
                stepLat (vessels s ! n) (nextPlanOf (plasticHotspots s) (vessels s ! n) ! i) \<and>
              lng (vessels s' ! n) = lng (vessels s ! n) +
                stepLng (vessels s ! n) (nextPlanOf (plasticHotspots s) (vessels s ! n) ! i) \<and>
              (filter incomplete (planOf (vessels s ! n)) \<noteq> [] \<longrightarrow>
                 nextPlanOf (plasticHotspots s) (vessels s ! n) = planOf (vessels s ! n)))))"
proof -
  let ?A = "activeAssigned (missions s)"
  let ?hs = "plasticHotspots s"
  obtain vs' k' where t: "updateVesselPositions rnd k s = Inr (s\<lparr>vessels := vs'\<rparr>, k')"
    and rel: "list_all2 (stepRel ?A ?hs rnd) (vessels s) vs'"
    using updateVesselPositions_rel [of rnd k s] by blast
  have len: "length vs' = length (vessels s)"
    using rel by (simp add: list_all2_lengthD)
  have main: "(skipped ?A (vessels s ! n) \<or> filter incomplete (planOf (vessels s ! n)) \<noteq> [] \<longrightarrow>
           planLe (planOf (vessels s ! n)) (planOf (vs' ! n))) \<and>
        (\<not> skipped ?A (vessels s ! n) \<longrightarrow>
           (\<exists>i. findIndex incomplete (nextPlanOf ?hs (vessels s ! n)) = Some i \<and>
              incomplete (nextPlanOf ?hs (vessels s ! n) ! i) \<and>
              (\<forall>j<i. wp_completed (nextPlanOf ?hs (vessels s ! n) ! j) = Some True) \<and>
              lat (vs' ! n) = lat (vessels s ! n) +
                stepLat (vessels s ! n) (nextPlanOf ?hs (vessels s ! n) ! i) \<and>
              lng (vs' ! n) = lng (vessels s ! n) +
                stepLng (vessels s ! n) (nextPlanOf ?hs (vessels s ! n) ! i) \<and>
              (filter incomplete (planOf (vessels s ! n)) \<noteq> [] \<longrightarrow>
                 nextPlanOf ?hs (vessels s ! n) = planOf (vessels s ! n))))"
    if n: "n < length (vessels s)" for n
  proof -
    let ?v = "vessels s ! n"
    have sr: "stepRel ?A ?hs rnd ?v (vs' ! n)"
      using rel n by (rule list_all2_nthD)
    show ?thesis
    proof (cases "skipped ?A ?v")
      case True
      with sr have "vs' ! n = ?v" by (rule stepRel_skipped)
      with True show ?thesis by (simp add: planLe_refl)
    next
      case False
      with sr obtain m where m: "moveVessel ?hs (rnd m) (rnd (m + 1)) ?v = Inr (vs' ! n)"
        by (auto simp: stepRel_def)
      from moveVessel_target [of ?hs "rnd m" "rnd (m + 1)" ?v] m obtain i where
        i: "findIndex incomplete (nextPlanOf ?hs ?v) = Some i"
          "incomplete (nextPlanOf ?hs ?v ! i)"
          "\<forall>j<i. wp_completed (nextPlanOf ?hs ?v ! j) = Some True"
          "lat (vs' ! n) = lat ?v + stepLat ?v (nextPlanOf ?hs ?v ! i)"
          "lng (vs' ! n) = lng ?v + stepLng ?v (nextPlanOf ?hs ?v ! i)"
        and le: "planLe (nextPlanOf ?hs ?v) (planOf (vs' ! n))"
        by auto
      have ret: "nextPlanOf ?hs ?v = planOf ?v" if "filter incomplete (planOf ?v) \<noteq> []"
        using that by (rule nextPlanOf_retained)
      from le ret have "filter incomplete (planOf ?v) \<noteq> [] \<longrightarrow> planLe (planOf ?v) (planOf (vs' ! n))"
        by auto
      with False i ret show ?thesis
        by blast
    qed
  qed
  show ?thesis
    using t len main by (intro exI [of _ "s\<lparr>vessels := vs'\<rparr>"] exI [of _ k']) simp
qed

text \<open>
  Claim C6. In one tick, from any state: a vessel that is skipped, or whose plan has
  an incomplete waypoint, keeps its plan (same length, same coordinates) and every
  waypoint that was completed before the tick is completed after it. A vessel that
  moves heads for the first incomplete waypoint of the plan in force: the target is
  incomplete, every waypoint before it is completed, and the plan in force is the
  vessel's own plan whenever that has an incomplete waypoint. Over any run of ticks
  along which the plan of a vessel is retained, the run returns and every waypoint
  completed at the start is completed at the end.
\<close>

theorem arrival_idempotent:
  "(\<exists>s' k'. updateVesselPositions rnd k s = Inr (s', k') \<and>
     length (vessels s') = length (vessels s) \<and>
     (\<forall>n<length (vessels s).
        (skipped (activeAssigned (missions s)) (vessels s ! n) \<or>
         filter incomplete (planOf (vessels s ! n)) \<noteq> [] \<longrightarrow>
           planLe (planOf (vessels s ! n)) (planOf (vessels s' ! n))) \<and>
        (\<not> skipped (activeAssigned (missions s)) (vessels s ! n) \<longrightarrow>
           (\<exists>i. findIndex incomplete (nextPlanOf (plasticHotspots s) (vessels s ! n)) = Some i \<and>
              incomplete (nextPlanOf (plasticHotspots s) (vessels s ! n) ! i) \<and>
              (\<forall>j<i. wp_completed (nextPlanOf (plasticHotspots s) (vessels s ! n) ! j)
                        = Some True) \<and>
              lat (vessels s' ! n) = lat (vessels s ! n) +
                stepLat (vessels s ! n) (nextPlanOf (plasticHotspots s) (vessels s ! n) ! i) \<and>
              lng (vessels s' ! n) = lng (vessels s ! n) +
                stepLng (vessels s ! n) (nextPlanOf (plasticHotspots s) (vessels s ! n) ! i) \<and>
              (filter incomplete (planOf (vessels s ! n)) \<noteq> [] \<longrightarrow>
                 nextPlanOf (plasticHotspots s) (vessels s ! n) = planOf (vessels s ! n)))))) \<and>
   (i < length vs \<and> retainedRun es rnd k vs i \<longrightarrow>
      (\<exists>vs' k'. runTicks es rnd k vs = Inr (vs', k') \<and> length vs' = length vs \<and>
         planLe (planOf (vs ! i)) (planOf (vs' ! i))))"
proof (rule conjI)
  show "\<exists>s' k'. updateVesselPositions rnd k s = Inr (s', k') \<and>
     length (vessels s') = length (vessels s) \<and>
     (\<forall>n<length (vessels s).
        (skipped (activeAssigned (missions s)) (vessels s ! n) \<or>
         filter incomplete (planOf (vessels s ! n)) \<noteq> [] \<longrightarrow>
           planLe (planOf (vessels s ! n)) (planOf (vessels s' ! n))) \<and>
        (\<not> skipped (activeAssigned (missions s)) (vessels s ! n) \<longrightarrow>
           (\<exists>i. findIndex incomplete (nextPlanOf (plasticHotspots s) (vessels s ! n)) = Some i \<and>
              incomplete (nextPlanOf (plasticHotspots s) (vessels s ! n) ! i) \<and>
              (\<forall>j<i. wp_completed (nextPlanOf (plasticHotspots s) (vessels s ! n) ! j)
                        = Some True) \<and>
              lat (vessels s' ! n) = lat (vessels s ! n) +
                stepLat (vessels s ! n) (nextPlanOf (plasticHotspots s) (vessels s ! n) ! i) \<and>
              lng (vessels s' ! n) = lng (vessels s ! n) +
                stepLng (vessels s ! n) (nextPlanOf (plasticHotspots s) (vessels s ! n) ! i) \<and>
              (filter incomplete (planOf (vessels s ! n)) \<noteq> [] \<longrightarrow>
                 nextPlanOf (plasticHotspots s) (vessels s ! n) = planOf (vessels s ! n)))))"
    by (rule tick_plan_retained)
  show "i < length vs \<and> retainedRun es rnd k vs i \<longrightarrow>
      (\<exists>vs' k'. runTicks es rnd k vs = Inr (vs', k') \<and> length vs' = length vs \<and>
         planLe (planOf (vs ! i)) (planOf (vs' ! i)))"
    using retained_run [of i vs es rnd k] by blast
qed

theorem arrival_idempotent_witness:
  "status vessel001Underway = VActive \<and>
   vid vessel001Underway \<in> activeAssigned seedMissions \<and>
   filter incomplete (planOf vessel001Underway) \<noteq> [] \<and>
   wp_completed (planOf vessel001Underway ! 0) = Some True \<and>
   status vessel004 = VIdle \<and>
   retainedRun [(seedMissions, seedHotspots)] zeroRnd 0 [vessel001Underway, vessel004] 0 \<and>
   (\<exists>s' k'. updateVesselPositions zeroRnd 0
        \<lparr>vessels = [vessel001Underway, vessel004], plasticHotspots = seedHotspots,
         missions = seedMissions\<rparr> = Inr (s', k') \<and>
      length (planOf (vessels s' ! 0)) = 3 \<and>
      wp_completed (planOf (vessels s' ! 0) ! 0) = Some True \<and>
      length (planOf (vessels s' ! 1)) = 0 \<and>
      findIndex incomplete (nextPlanOf seedHotspots vessel001Underway) = Some 1) \<and>
   (\<exists>vs' k'. runTicks [(seedMissions, seedHotspots)] zeroRnd 0 [vessel001Underway, vessel004]
        = Inr (vs', k') \<and>
      wp_completed (planOf (vs' ! 0) ! 0) = Some True)"
proof -
  let ?s = "\<lparr>vessels = [vessel001Underway, vessel004], plasticHotspots = seedHotspots,
         missions = seedMissions\<rparr>"
  let ?vs = "[vessel001Underway, vessel004]"
  let ?es = "[(seedMissions, seedHotspots)]"
  have a: "status vessel001Underway = VActive"
    and b: "vid vessel001Underway \<in> activeAssigned seedMissions"
    and c: "filter incomplete (planOf vessel001Underway) \<noteq> []"
    and d: "wp_completed (planOf vessel001Underway ! 0) = Some True"
    and e: "status vessel004 = VIdle"
    and l: "length (planOf vessel001Underway) = 3" "length (planOf vessel004) = 0"
    by (simp_all add: vessel001Underway_def vessel001_def vessel004_def activeAssigned_iff
        seedMissions_def mission001_def mission002_def planOf_def incomplete_def)
  have f: "findIndex incomplete (nextPlanOf seedHotspots vessel001Underway) = Some 1"
    unfolding nextPlanOf_retained [OF c]
    by (simp add: vessel001Underway_def planOf_def incomplete_def)
  have sk1: "skipped (activeAssigned (missions ?s)) (vessels ?s ! 1)"
    using e by (simp add: skipped_def)
  note inst = arrival_idempotent [where rnd = zeroRnd and k = 0 and s = ?s and i = 0
      and vs = ?vs and es = ?es]
  from inst obtain s' k' where
    t: "updateVesselPositions zeroRnd 0 ?s = Inr (s', k')"
    and r: "\<forall>n<length (vessels ?s).
        (skipped (activeAssigned (missions ?s)) (vessels ?s ! n) \<or>
         filter incomplete (planOf (vessels ?s ! n)) \<noteq> [] \<longrightarrow>
           planLe (planOf (vessels ?s ! n)) (planOf (vessels s' ! n)))"
    by blast
  from r [rule_format, of 0] c have "planLe (planOf vessel001Underway) (planOf (vessels s' ! 0))"
    by simp
  with d l(1) have p0: "length (planOf (vessels s' ! 0)) = 3"
    "wp_completed (planOf (vessels s' ! 0) ! 0) = Some True"
    by (simp_all add: planLe_def)
  from r [rule_format, of 1] sk1 have "planLe (planOf vessel004) (planOf (vessels s' ! 1))"
    by simp
  with l(2) have p1: "length (planOf (vessels s' ! 1)) = 0"
    by (simp add: planLe_def)
  have ret: "retainedRun ?es zeroRnd 0 ?vs 0"
    using c t by simp
  with inst obtain vs' k2 where run: "runTicks ?es zeroRnd 0 ?vs = Inr (vs', k2)"
    and le: "planLe (planOf (?vs ! 0)) (planOf (vs' ! 0))"
    by auto
  from le d l(1) have q: "wp_completed (planOf (vs' ! 0) ! 0) = Some True"
    by (simp add: planLe_def)
  from a b c d e ret t p0 p1 f run q show ?thesis
    by blast
qed

section \<open>The step\<close>

lemma cosLat_pos:
  assumes "- 90 < x" "x < 90"
  shows "0 < cos (jsOr (toRad x) (1 / 1000000))"
proof (cases "toRad x = 0")
  case True
  have "(1 :: real) / 1000000 < pi / 2"
    using pi_ge_two by linarith
  then have "0 < cos ((1 :: real) / 1000000)"
    by (intro cos_gt_zero) simp_all
  with True show ?thesis by (simp add: jsOr_def)
next
  case False
  have "x * pi < 90 * pi"
    using assms(2) by (intro mult_strict_right_mono) simp_all
  then have hi: "toRad x < pi / 2"
    by (simp add: toRad_def)
  have "(- 90) * pi < x * pi"
    using assms(1) by (intro mult_strict_right_mono) simp_all
  then have lo: "- (pi / 2) < toRad x"
    by (simp add: toRad_def)
  from lo hi have "0 < cos (toRad x)"
    by (rule cos_gt_zero_pi)
  with False show ?thesis by (simp add: jsOr_def)
qed

lemma step_norm:
  assumes "c \<noteq> 0"
  shows "(111000 * (cos b * m * (1 / 111000)))\<^sup>2 +
         (111000 * c * (sin b * m * (1 / (111000 * c))))\<^sup>2 = (m :: real)\<^sup>2"
proof -
  have "111000 * (cos b * m * (1 / 111000)) = cos b * m"
    by simp
  moreover have "111000 * c * (sin b * m * (1 / (111000 * c))) = sin b * m"
    using assms by simp
  moreover have "(cos b * m)\<^sup>2 + (sin b * m)\<^sup>2 = m\<^sup>2"
  proof -
    have "(cos b * m)\<^sup>2 + (sin b * m)\<^sup>2 = ((cos b)\<^sup>2 + (sin b)\<^sup>2) * m\<^sup>2"
      by (simp only: power_mult_distrib distrib_right)
    then show ?thesis by simp
  qed
  ultimately show ?thesis
    by simp
qed

lemma mapVessels_single:
  assumes "\<not> skipped A v" "moveVessel hs (rnd k) (rnd (k + 1)) v = Inr v'"
  shows "mapVessels A hs rnd k [v] = Inr ([v'], k + 2)"
  using assms by simp

text \<open>
  Claim C7. A vessel that is not skipped is moved by the tick, and the step distance
  is \<open>max 0.1 (speed * 0.514444) * 5\<close> meters, at least half a meter: the latitude
  changes by the cosine of the bearing times that distance over 111000, the longitude
  by the sine of the bearing times that distance over \<open>111000 * cos\<close> of the base
  latitude, so that the displacement, measured in this local metric, has exactly that
  length. With speed 0 the distance is 0.5 m and the position after the tick differs
  from the position before it. (The cosine of the base latitude is taken not to be
  zero: on doubles it never is.)
\<close>

theorem step_distance:
  assumes "\<not> skipped A v"
  shows "\<exists>v' i. mapVessels A hs rnd k [v] = Inr ([v'], k + 2) \<and>
     findIndex incomplete (nextPlanOf hs v) = Some i \<and>
     meters v = max 0.1 (speed v * 0.514444) * 5 \<and> 1 / 2 \<le> meters v \<and>
     lat v' = lat v +
       cos (bearing (lat v) (lng v) (wp_lat (nextPlanOf hs v ! i)) (wp_lng (nextPlanOf hs v ! i)))
         * meters v * (1 / 111000) \<and>
     lng v' = lng v +
       sin (bearing (lat v) (lng v) (wp_lat (nextPlanOf hs v ! i)) (wp_lng (nextPlanOf hs v ! i)))
         * meters v * (1 / (111000 * cos (jsOr (toRad (lat v)) (1 / 1000000)))) \<and>
     (cos (jsOr (toRad (lat v)) (1 / 1000000)) \<noteq> 0 \<longrightarrow>
        (111000 * (lat v' - lat v))\<^sup>2 +
        (111000 * cos (jsOr (toRad (lat v)) (1 / 1000000)) * (lng v' - lng v))\<^sup>2
          = (meters v)\<^sup>2 \<and>
        (lat v' \<noteq> lat v \<or> lng v' \<noteq> lng v)) \<and>
     (speed v = 0 \<longrightarrow> meters v = 1 / 2)"
proof -
  let ?np = "nextPlanOf hs v"
  let ?c = "cos (jsOr (toRad (lat v)) (1 / 1000000))"
  obtain i where i: "findIndex incomplete ?np = Some i"
    using targetIndex_nextPlanOf [of hs v] by blast
  obtain v' where v': "moveVessel hs (rnd k) (rnd (k + 1)) v = Inr v'"
    using moveVessel_total by blast
  let ?b = "bearing (lat v) (lng v) (wp_lat (?np ! i)) (wp_lng (?np ! i))"
  note f = moveVessel_fields [OF i v']
  have run: "mapVessels A hs rnd k [v] = Inr ([v'], k + 2)"
    using assms v' by (rule mapVessels_single)
  have m: "meters v = max 0.1 (speed v * 0.514444) * 5"
    by (simp add: meters_def metersPerSec_def)
  have la: "lat v' = lat v + cos ?b * meters v * (1 / 111000)"
    using f(1) by (simp add: stepLat_def degLatPerMeter_def)
  have lo: "lng v' = lng v + sin ?b * meters v * (1 / (111000 * ?c))"
    using f(2) by (simp add: stepLng_def degLngPerMeter_def)
  have norm: "(111000 * (lat v' - lat v))\<^sup>2 + (111000 * ?c * (lng v' - lng v))\<^sup>2
          = (meters v)\<^sup>2 \<and> (lat v' \<noteq> lat v \<or> lng v' \<noteq> lng v)" if c: "?c \<noteq> 0"
  proof
    show n: "(111000 * (lat v' - lat v))\<^sup>2 + (111000 * ?c * (lng v' - lng v))\<^sup>2
          = (meters v)\<^sup>2"
      unfolding la lo using step_norm [OF c, of ?b "meters v"] by simp
    have "0 < (meters v)\<^sup>2"
      using meters_ge [of v] by simp
    with n show "lat v' \<noteq> lat v \<or> lng v' \<noteq> lng v"
      by auto
  qed
  have z: "speed v = 0 \<longrightarrow> meters v = 1 / 2"
    by (simp add: m)
  from run i m meters_ge [of v] la lo norm z show ?thesis
    by blast
qed

theorem step_distance_witness:
  "status vessel004Active = VActive \<and> vid vessel004Active \<in> activeAssigned seedMissions \<and>
   speed vessel004Active = 0 \<and>
   cos (jsOr (toRad (lat vessel004Active)) (1 / 1000000)) \<noteq> 0 \<and>
   (\<exists>v'. mapVessels (activeAssigned seedMissions) seedHotspots zeroRnd 0 [vessel004Active]
             = Inr ([v'], 0 + 2) \<and>
      meters vessel004Active = 1 / 2 \<and>
      (111000 * (lat v' - lat vessel004Active))\<^sup>2 +
      (111000 * cos (jsOr (toRad (lat vessel004Active)) (1 / 1000000))
         * (lng v' - lng vessel004Active))\<^sup>2 = (1 / 2)\<^sup>2 \<and>
      (lat v' \<noteq> lat vessel004Active \<or> lng v' \<noteq> lng vessel004Active))"
proof -
  have a: "status vessel004Active = VActive"
    and b: "vid vessel004Active \<in> activeAssigned seedMissions"
    and c: "speed vessel004Active = 0"
    by (simp_all add: vessel004Active_def vessel004_def activeAssigned_iff seedMissions_def
        mission001_def mission002_def)
  have d: "cos (jsOr (toRad (lat vessel004Active)) (1 / 1000000)) \<noteq> 0"
    using cosLat_pos [of "lat vessel004Active"]
    by (simp add: vessel004Active_def vessel004_def)
  have sk: "\<not> skipped (activeAssigned seedMissions) vessel004Active"
    using a b by (simp add: skipped_def)
  from step_distance [OF sk, of seedHotspots zeroRnd 0] obtain v' where
    run: "mapVessels (activeAssigned seedMissions) seedHotspots zeroRnd 0 [vessel004Active]
             = Inr ([v'], 0 + 2)"
    and n: "cos (jsOr (toRad (lat vessel004Active)) (1 / 1000000)) \<noteq> 0 \<longrightarrow>
        (111000 * (lat v' - lat vessel004Active))\<^sup>2 +
        (111000 * cos (jsOr (toRad (lat vessel004Active)) (1 / 1000000))
           * (lng v' - lng vessel004Active))\<^sup>2 = (meters vessel004Active)\<^sup>2 \<and>
        (lat v' \<noteq> lat vessel004Active \<or> lng v' \<noteq> lng vessel004Active)"
    and z: "speed vessel004Active = 0 \<longrightarrow> meters vessel004Active = 1 / 2"
    by blast
  from z c have m: "meters vessel004Active = 1 / 2"
    by blast
  from n d have "(111000 * (lat v' - lat vessel004Active))\<^sup>2 +
        (111000 * cos (jsOr (toRad (lat vessel004Active)) (1 / 1000000))
           * (lng v' - lng vessel004Active))\<^sup>2 = (1 / 2)\<^sup>2 \<and>
        (lat v' \<noteq> lat vessel004Active \<or> lng v' \<noteq> lng vessel004Active)"
    unfolding m by blast
  with a b c d run m show ?thesis
    by blast
qed

section \<open>The bearing\<close>

lemma bearing_east: "bearing 0 0 0 1 = pi / 2"
proof -
  have "pi / 180 < pi"
    by simp
  then have "0 < sin (pi / 180)"
    by (intro sin_gt_zero) simp_all
  then show ?thesis
    by (simp add: bearing_def Let_def toRad_def atan2_def)
qed

text \<open>
  Claim C8. From latitude 0, longitude 0 towards a waypoint at latitude 0,
  longitude 1 the bearing is \<open>\<pi>/2\<close>, that is 90 degrees; the step of a vessel
  there leaves the latitude at 0 and increases the longitude, by the step distance
  over \<open>111000 * cos (1/1000000)\<close> (the base latitude 0 is falsy and replaced by
  \<^verbatim>\<open>1e-6\<close>). On real numbers the values are exact, hence also approximate.
\<close>

theorem bearing_due_east:
  assumes "lat v = 0" "lng v = 0"
    and "planOf v = t # rest" "incomplete t" "wp_lat t = 0" "wp_lng t = 1"
  shows "bearing (lat v) (lng v) (wp_lat t) (wp_lng t) = pi / 2 \<and>
         toDeg (bearing (lat v) (lng v) (wp_lat t) (wp_lng t)) = 90 \<and>
         stepLat v t = 0 \<and> 0 < stepLng v t \<and>
         (\<exists>v'. moveVessel hs r1 r2 v = Inr v' \<and>
            findIndex incomplete (nextPlanOf hs v) = Some 0 \<and> nextPlanOf hs v ! 0 = t \<and>
            lat v' = 0 \<and> 0 < lng v' \<and>
            lng v' = meters v / (111000 * cos (1 / 1000000)))"
proof -
  have b: "bearing (lat v) (lng v) (wp_lat t) (wp_lng t) = pi / 2"
    using assms by (simp add: bearing_east)
  have d: "toDeg (bearing (lat v) (lng v) (wp_lat t) (wp_lng t)) = 90"
    unfolding b by (simp add: toDeg_def)
  have sl: "stepLat v t = 0"
    unfolding stepLat_def b by simp
  have c: "0 < cos ((1 :: real) / 1000000)"
    using cosLat_pos [of 0] by (simp add: jsOr_def toRad_def)
  have m: "0 < meters v"
    using meters_ge [of v] by linarith
  have sg: "stepLng v t = meters v / (111000 * cos (1 / 1000000))"
    unfolding stepLng_def b using assms(1)
    by (simp add: degLngPerMeter_def jsOr_def toRad_def)
  have sp: "0 < stepLng v t"
    unfolding sg using c m by simp
  have ne: "filter incomplete (planOf v) \<noteq> []"
    using assms(3,4) by simp
  have np: "nextPlanOf hs v = t # rest"
    using nextPlanOf_retained [OF ne] assms(3) by simp
  have i: "findIndex incomplete (nextPlanOf hs v) = Some 0"
    unfolding np using assms(4) by simp
  obtain v' where v': "moveVessel hs r1 r2 v = Inr v'"
    using moveVessel_total by blast
  from moveVessel_fields(1,2) [OF i v'] have "lat v' = 0" "lng v' = stepLng v t"
    using assms(1,2) sl by (simp_all add: np)
  with v' i np b d sl sp sg show ?thesis
    by auto
qed

theorem bearing_due_east_witness:
  "lat vesselOrigin = 0 \<and> lng vesselOrigin = 0 \<and>
   planOf vesselOrigin = \<lparr>wp_lat = 0, wp_lng = 1, wp_completed = Some False\<rparr> # [] \<and>
   incomplete \<lparr>wp_lat = 0, wp_lng = 1, wp_completed = Some False\<rparr> \<and>
   bearing 0 0 0 1 = pi / 2 \<and> toDeg (bearing 0 0 0 1) = 90 \<and>
   (\<exists>v'. moveVessel seedHotspots 0 0 vesselOrigin = Inr v' \<and> lat v' = 0 \<and> 0 < lng v')"
proof -
  let ?t = "\<lparr>wp_lat = 0, wp_lng = 1, wp_completed = Some False\<rparr>"
  have a: "lat vesselOrigin = 0" "lng vesselOrigin = 0"
    and p: "planOf vesselOrigin = ?t # []"
    and i: "incomplete ?t"
    and w: "wp_lat ?t = 0" "wp_lng ?t = 1"
    by (simp_all add: vesselOrigin_def vessel001_def planOf_def incomplete_def)
  from bearing_due_east [OF a p i w, of seedHotspots 0 0] a p i show ?thesis
    by auto
qed

section \<open>No hotspots\<close>

lemma bearing_self: "bearing la lo la lo = 0"
  by (simp add: bearing_def Let_def toRad_def atan2_def)

lemma freshPlan_empty:
  "freshPlan clat clng [] = [\<lparr>wp_lat = clat, wp_lng = clng, wp_completed = Some False\<rparr>]"
  by (simp add: freshPlan_def nearest_def)

lemma dKm_north:
  assumes "0 \<le> s" "s \<le> 180"
  shows "dKm (la + s) lo la lo = Some (6371000 * toRad s)"
proof -
  let ?x = "toRad s / 2"
  have x0: "0 \<le> ?x"
    using assms(1) by (simp add: toRad_def)
  have "s * pi \<le> 180 * pi"
    using assms(2) by (intro mult_right_mono) simp_all
  then have x1: "?x \<le> pi / 2"
    by (simp add: toRad_def)
  have "toRad (la - (la + s)) / 2 = - ?x"
    by (simp add: toRad_def)
  then have a: "haversineA (la + s) lo la lo = (sin ?x)\<^sup>2"
    by (simp add: haversineA_def Let_def toRad_def)
  have s0: "0 \<le> sin ?x"
    using x0 x1 by (intro sin_ge_zero) simp_all
  then have r: "sqrt ((sin ?x)\<^sup>2) = sin ?x"
    by simp
  have m: "min 1 (sin ?x) = sin ?x"
    by simp
  have "arcsin (sin ?x) = ?x"
    using x0 x1 by (intro arcsin_sin) simp_all
  then show ?thesis
    unfolding dKm_def Let_def a r m by simp
qed

lemma arrived_north:
  assumes "0 \<le> m" "m \<le> 3900"
  shows "arrived (dKm (la + m / 111000) lo la lo)"
proof -
  have "m / 111000 \<le> 180"
    using assms by simp
  then have d: "dKm (la + m / 111000) lo la lo = Some (6371000 * toRad (m / 111000))"
    using assms(1) by (intro dKm_north) simp_all
  have b: "m * pi \<le> 3900 * 4"
    using assms pi_less_4 by (intro mult_mono) simp_all
  have "6371000 * toRad (m / 111000) = 6371000 * (m * pi) / (111000 * 180)"
    by (simp add: toRad_def)
  also have "\<dots> \<le> 6371000 * (3900 * 4) / (111000 * 180)"
    using b by (intro divide_right_mono mult_left_mono) simp_all
  also have "\<dots> < 5000"
    by simp
  finally have "6371000 * toRad (m / 111000) < 5000" .
  then show ?thesis
    by (simp add: d arrived_def)
qed

lemma drift_move:
  assumes fin: "filter incomplete (planOf v) = []"
    and mv: "moveVessel [] r1 r2 v = Inr v'"
  shows "lat v' = lat v + meters v / 111000"
    and "lng v' = lng v"
    and "meters v \<le> 3900 \<Longrightarrow> filter incomplete (planOf v') = []"
proof -
  let ?w = "\<lparr>wp_lat = lat v, wp_lng = lng v, wp_completed = Some False\<rparr>"
  have np: "nextPlanOf [] v = [?w]"
    by (simp add: nextPlanOf_fresh [OF fin] freshPlan_empty)
  have i: "findIndex incomplete (nextPlanOf [] v) = Some 0"
    by (simp add: np incomplete_def)
  note f = moveVessel_fields [OF i mv]
  have sl: "stepLat v ?w = meters v / 111000"
    by (simp add: stepLat_def bearing_self degLatPerMeter_def)
  have sg: "stepLng v ?w = 0"
    by (simp add: stepLng_def bearing_self)
  show la: "lat v' = lat v + meters v / 111000"
    using f(1) by (simp add: np sl)
  show lo: "lng v' = lng v"
    using f(2) by (simp add: np sg)
  show "filter incomplete (planOf v') = []" if "meters v \<le> 3900"
  proof -
    have "0 \<le> meters v"
      using meters_ge [of v] by linarith
    then have "arrived (dKm (lat v + meters v / 111000) (lng v) (lat v) (lng v))"
      using that by (rule arrived_north)
    then have "plan v' = Some [?w\<lparr>wp_completed := Some True\<rparr>]"
      using f(3) by (simp add: np la lo)
    then show ?thesis
      by (simp add: planOf_def incomplete_def)
  qed
qed

lemma meters_frame:
  "v' = v\<lparr>lat := a, lng := b, route := c, plan := d, plasticCollected := e, battery := f\<rparr>
     \<Longrightarrow> meters v' = meters v \<and> status v' = status v \<and> vid v' = vid v"
  by (simp add: meters_def metersPerSec_def)

lemma drift_run:
  assumes "i < length vs"
    and "status (vs ! i) = VActive"
    and "\<forall>e\<in>set es. snd e = [] \<and> vid (vs ! i) \<in> activeAssigned (fst e)"
    and "filter incomplete (planOf (vs ! i)) = []"
    and "meters (vs ! i) \<le> 3900"
  shows "\<exists>vs' k'. runTicks es rnd k vs = Inr (vs', k') \<and> length vs' = length vs \<and>
           lat (vs' ! i) = lat (vs ! i) + real (length es) * (meters (vs ! i) / 111000) \<and>
           lng (vs' ! i) = lng (vs ! i)"
  using assms
proof (induction es arbitrary: vs k)
  case Nil
  show ?case by simp
next
  case (Cons e es)
  obtain ms hs where e: "e = (ms, hs)" by (cases e)
  from Cons.prems(3) e have hs: "hs = []" and asg: "vid (vs ! i) \<in> activeAssigned ms"
    by auto
  let ?v = "vs ! i"
  obtain vs1 k1 where
    t: "updateVesselPositions rnd k \<lparr>vessels = vs, plasticHotspots = hs, missions = ms\<rparr>
          = Inr (\<lparr>vessels = vs, plasticHotspots = hs, missions = ms\<rparr>\<lparr>vessels := vs1\<rparr>, k1)"
    and r: "list_all2 (stepRel (activeAssigned ms) hs rnd) vs vs1"
    using updateVesselPositions_rel [of rnd k "\<lparr>vessels = vs, plasticHotspots = hs, missions = ms\<rparr>"]
    by auto
  have len1: "length vs1 = length vs"
    using r by (simp add: list_all2_lengthD)
  have sr: "stepRel (activeAssigned ms) hs rnd ?v (vs1 ! i)"
    using r Cons.prems(1) by (rule list_all2_nthD)
  have "\<not> skipped (activeAssigned ms) ?v"
    using Cons.prems(2) asg by (simp add: skipped_def)
  with sr obtain n where mv: "moveVessel [] (rnd n) (rnd (n + 1)) ?v = Inr (vs1 ! i)"
    unfolding hs by (auto simp: stepRel_def)
  note d = drift_move [OF Cons.prems(4) mv]
  have fr: "meters (vs1 ! i) = meters ?v \<and> status (vs1 ! i) = status ?v \<and>
      vid (vs1 ! i) = vid ?v"
    using moveVessel_frame [OF mv] by (rule meters_frame)
  have "\<exists>vs' k'. runTicks es rnd k1 vs1 = Inr (vs', k') \<and> length vs' = length vs1 \<and>
           lat (vs' ! i) = lat (vs1 ! i) + real (length es) * (meters (vs1 ! i) / 111000) \<and>
           lng (vs' ! i) = lng (vs1 ! i)"
  proof (rule Cons.IH)
    show "i < length vs1"
      using Cons.prems(1) len1 by simp
    show "status (vs1 ! i) = VActive"
      using fr Cons.prems(2) by simp
    show "\<forall>e\<in>set es. snd e = [] \<and> vid (vs1 ! i) \<in> activeAssigned (fst e)"
      using fr Cons.prems(3) by simp
    show "filter incomplete (planOf (vs1 ! i)) = []"
      using Cons.prems(5) by (rule d(3))
    show "meters (vs1 ! i) \<le> 3900"
      using fr Cons.prems(5) by simp
  qed
  then obtain vs' k' where run: "runTicks es rnd k1 vs1 = Inr (vs', k')"
    and len: "length vs' = length vs1"
    and la: "lat (vs' ! i) = lat (vs1 ! i) + real (length es) * (meters (vs1 ! i) / 111000)"
    and lo: "lng (vs' ! i) = lng (vs1 ! i)"
    by blast
  have "runTicks (e # es) rnd k vs = Inr (vs', k')"
    using t run by (simp add: e)
  moreover have "lat (vs' ! i) = lat ?v + real (length (e # es)) * (meters ?v / 111000)"
    using la d(1) fr by (simp add: algebra_simps)
  moreover have "lng (vs' ! i) = lng ?v"
    using lo d(2) by simp
  ultimately show ?case
    using len len1 by simp
qed

lemma meters_vessel001: "meters vessel001 = 32.15275"
  by (simp add: meters_def metersPerSec_def vessel001_def)

text \<open>
  Claim C1, as the code has it. With no hotspots the planner returns the single
  waypoint at the vessel's position, not completed, and a tick never throws. The vessel
  does not stay where it is: the bearing to its own position is \<^verbatim>\<open>atan2(0, 0) = 0\<close>,
  due north, and the step distance is at least 0.5 m, so a tick on which the plan is
  regenerated raises the latitude by \<open>meters / 111000\<close> degrees and keeps the
  longitude. For step distances up to 3900 m the new position is within 5000 m of the
  waypoint, which is completed at once, so the next tick plans again: after \<open>n\<close>
  ticks without hotspots the latitude has grown by \<open>n * meters / 111000\<close>.
\<close>

theorem degenerate_plan_drift:
  assumes "filter incomplete (planOf v) = []"
  shows "freshPlan (lat v) (lng v) [] =
           [\<lparr>wp_lat = lat v, wp_lng = lng v, wp_completed = Some False\<rparr>] \<and>
         nextPlanOf [] v = freshPlan (lat v) (lng v) [] \<and>
         (\<exists>v'. moveVessel [] r1 r2 v = Inr v' \<and>
            lat v' = lat v + meters v / 111000 \<and> lng v' = lng v \<and> lat v < lat v') \<and>
         (i < length vs \<and> vs ! i = v \<and> status v = VActive \<and> meters v \<le> 3900 \<and>
          (\<forall>e\<in>set es. snd e = [] \<and>
             (\<exists>m\<in>set (fst e). m_status m = MActive \<and> vid v \<in> set (m_vessels m))) \<longrightarrow>
          (\<exists>vs' k'. runTicks es rnd k vs = Inr (vs', k') \<and> length vs' = length vs \<and>
             lat (vs' ! i) = lat v + real (length es) * (meters v / 111000) \<and>
             lng (vs' ! i) = lng v))"
proof (intro conjI impI)
  show "freshPlan (lat v) (lng v) [] =
           [\<lparr>wp_lat = lat v, wp_lng = lng v, wp_completed = Some False\<rparr>]"
    by (rule freshPlan_empty)
  show "nextPlanOf [] v = freshPlan (lat v) (lng v) []"
    using assms by (rule nextPlanOf_fresh)
  obtain v' where v': "moveVessel [] r1 r2 v = Inr v'"
    using moveVessel_total by blast
  have "0 < meters v / 111000"
    using meters_ge [of v] by simp
  with drift_move(1,2) [OF assms v'] v'
  show "\<exists>v'. moveVessel [] r1 r2 v = Inr v' \<and>
            lat v' = lat v + meters v / 111000 \<and> lng v' = lng v \<and> lat v < lat v'"
    by simp
next
  assume h: "i < length vs \<and> vs ! i = v \<and> status v = VActive \<and> meters v \<le> 3900 \<and>
          (\<forall>e\<in>set es. snd e = [] \<and>
             (\<exists>m\<in>set (fst e). m_status m = MActive \<and> vid v \<in> set (m_vessels m)))"
  then have vi: "vs ! i = v" by blast
  have "\<exists>vs' k'. runTicks es rnd k vs = Inr (vs', k') \<and> length vs' = length vs \<and>
           lat (vs' ! i) = lat (vs ! i) + real (length es) * (meters (vs ! i) / 111000) \<and>
           lng (vs' ! i) = lng (vs ! i)"
  proof (rule drift_run)
    show "i < length vs" using h by blast
    show "status (vs ! i) = VActive" using h by simp
    show "\<forall>e\<in>set es. snd e = [] \<and> vid (vs ! i) \<in> activeAssigned (fst e)"
      using h by (simp add: activeAssigned_iff)
    show "filter incomplete (planOf (vs ! i)) = []" using assms vi by simp
    show "meters (vs ! i) \<le> 3900" using h by simp
  qed
  then show "\<exists>vs' k'. runTicks es rnd k vs = Inr (vs', k') \<and> length vs' = length vs \<and>
             lat (vs' ! i) = lat v + real (length es) * (meters v / 111000) \<and>
             lng (vs' ! i) = lng v"
    unfolding vi .
qed

theorem degenerate_plan_drift_witness:
  "filter incomplete (planOf vessel001) = [] \<and> status vessel001 = VActive \<and>
   meters vessel001 \<le> 3900 \<and> m_status mission001 = MActive \<and>
   vid vessel001 \<in> set (m_vessels mission001) \<and>
   nextPlanOf [] vessel001 = [\<lparr>wp_lat = 35.2, wp_lng = - 145, wp_completed = Some False\<rparr>] \<and>
   (\<exists>vs' k'. runTicks [(seedMissions, []), (seedMissions, [])] zeroRnd 0 [vessel001]
                = Inr (vs', k') \<and>
      lat (vs' ! 0) = 35.2 + 2 * (32.15275 / 111000) \<and> lng (vs' ! 0) = - 145)"
proof -
  let ?es = "[(seedMissions, []), (seedMissions, [])]"
  have p: "filter incomplete (planOf vessel001) = []"
    and a: "status vessel001 = VActive"
    and ms: "m_status mission001 = MActive" "vid vessel001 \<in> set (m_vessels mission001)"
    and pos: "lat vessel001 = 35.2" "lng vessel001 = - 145"
    by (simp_all add: vessel001_def planOf_def mission001_def)
  have m: "meters vessel001 \<le> 3900"
    by (simp add: meters_vessel001)
  have es: "\<forall>e\<in>set ?es. snd e = [] \<and>
      (\<exists>m\<in>set (fst e). m_status m = MActive \<and> vid vessel001 \<in> set (m_vessels m))"
    using ms by (simp add: seedMissions_def)
  note t = degenerate_plan_drift [OF p, of 0 0 0 "[vessel001]" ?es zeroRnd 0]
  from t have np: "nextPlanOf [] vessel001 =
      [\<lparr>wp_lat = 35.2, wp_lng = - 145, wp_completed = Some False\<rparr>]"
    unfolding pos by simp
  from t a m es have "\<exists>vs' k'. runTicks ?es zeroRnd 0 [vessel001] = Inr (vs', k') \<and>
      length vs' = length [vessel001] \<and>
      lat (vs' ! 0) = lat vessel001 + real (length ?es) * (meters vessel001 / 111000) \<and>
      lng (vs' ! 0) = lng vessel001"
    by (simp del: runTicks.simps)
  then have "\<exists>vs' k'. runTicks ?es zeroRnd 0 [vessel001] = Inr (vs', k') \<and>
      lat (vs' ! 0) = 35.2 + 2 * (32.15275 / 111000) \<and> lng (vs' ! 0) = - 145"
    unfolding pos meters_vessel001 by (auto simp del: runTicks.simps)
  with p a m ms np show ?thesis
    by blast
qed

text \<open>
  The claim as the specification states it fails on the first seed vessel, which is
  active and assigned to the active mission \<^verbatim>\<open>mission-001\<close>: after one tick without
  hotspots its latitude is \<open>35.2 + 32.15275 / 111000\<close>, not \<open>35.2\<close>.
\<close>

theorem stationary_counterexample:
  "status vessel001 = VActive \<and> vid vessel001 \<in> activeAssigned seedMissions \<and>
   map_sum id (map lat \<circ> fst) (runTicks [(seedMissions, [])] zeroRnd 0 [vessel001])
     = Inr [lat vessel001 + 32.15275 / 111000] \<and>
   lat vessel001 + 32.15275 / 111000 \<noteq> lat vessel001"
proof -
  have a: "status vessel001 = VActive"
    and b: "vid vessel001 \<in> activeAssigned seedMissions"
    and p: "filter incomplete (planOf vessel001) = []"
    by (simp_all add: vessel001_def planOf_def activeAssigned_iff seedMissions_def
        mission001_def mission002_def)
  have "\<exists>vs' k'. runTicks [(seedMissions, [])] zeroRnd 0 [vessel001] = Inr (vs', k') \<and>
           length vs' = length [vessel001] \<and>
           lat (vs' ! 0) = lat ([vessel001] ! 0) +
             real (length [(seedMissions, [] :: plasticHotspot list)]) *
               (meters ([vessel001] ! 0) / 111000) \<and>
           lng (vs' ! 0) = lng ([vessel001] ! 0)"
    by (rule drift_run) (simp_all add: a b p meters_vessel001)
  then obtain vs' k' where run: "runTicks [(seedMissions, [])] zeroRnd 0 [vessel001] = Inr (vs', k')"
    and len: "length vs' = 1"
    and la: "lat (vs' ! 0) = lat vessel001 + 32.15275 / 111000"
    by (auto simp del: runTicks.simps simp: meters_vessel001)
  from len obtain u where u: "vs' = [u]"
    by (cases vs') auto
  with la have "map lat vs' = [lat vessel001 + 32.15275 / 111000]"
    by simp
  with run a b show ?thesis
    by (simp del: runTicks.simps)
qed

end
